theory Spec2Isabelle
  imports Main "HOL-Library.Sublist" "HOL-Library.Char_ord" "HOL-Library.List_Lexorder"
    "HOL-Library.AList" "HOL-Library.Finite_Map"
begin

section \<open>Documents, errors and the file tree\<close>

text \<open>
  A Go value of type \<open>interface{}\<close> holding decoded JSON. \<open>JNull\<close> is the nil interface
  (what indexing a map at an absent key yields); a nil map stored in an interface is
  identified with it, since both encode as JSON null and both fail a \<open>.(string)\<close> assertion.
  A \<open>map[string]interface{}\<close> is an association list read with \<open>map_of\<close>.
\<close>

datatype json = JNull | JBool bool | JNum int | JStr string | JArr "json list"
  | JObj "(string \<times> json) list"

type_synonym doc = "(string \<times> json) list"

type_synonym path = "string list"

datatype error =
    ErrMsg string
  | NotADirectory path
  | IsADirectory path
  | Malformed path
  | NotExist path
  | MarshalError
  | NilMapAssignment

datatype node = File string | Dir

text \<open>The file tree: a finite map from absolute paths, as lists of components, to nodes.\<close>

type_synonym fs = "(path, node) fmap"

text \<open>
  What the package calls and the sources do not hold: its \<open>MarshalJSON\<close>, the JSON
  decoder behind its parsers, and how \<open>fmt\<close> renders a non-string, non-nil operand
  under the verb \<open>%s\<close>.
\<close>

record codec =
  marshal :: "json \<Rightarrow> error + string"
  unmarshal :: "string \<Rightarrow> json option"
  badverb :: "json \<Rightarrow> string"

subsection \<open>Paths\<close>

fun splitSlash :: "string \<Rightarrow> string list" where
  "splitSlash [] = [[]]"
| "splitSlash (c # cs) =
     (if c = CHR ''/'' then [] # splitSlash cs
      else (case splitSlash cs of [] \<Rightarrow> [[c]] | w # ws \<Rightarrow> (c # w) # ws))"

text \<open>
  \<open>filepath.Join\<close> on an absolute, already clean directory: the elements are split at
  the separator and cleaned onto it (empty and \<open>.\<close> components dropped, \<open>..\<close> steps up
  and stays at the root).
\<close>

fun cleanOnto :: "path \<Rightarrow> string list \<Rightarrow> path" where
  "cleanOnto p [] = p"
| "cleanOnto p (c # cs) =
     (if c = [] \<or> c = ''.'' then cleanOnto p cs
      else if c = ''..'' then cleanOnto (butlast p) cs
      else cleanOnto (p @ [c]) cs)"

definition Join :: "path \<Rightarrow> string list \<Rightarrow> path" where
  "Join p elems = cleanOnto p (concat (map splitSlash elems))"

text \<open>\<open>filepath.Ext\<close>: the suffix of the last element from its last dot, empty without one.\<close>

definition Ext :: "path \<Rightarrow> string" where
  "Ext p =
     (if p = [] then []
      else (let s = last p; r = takeWhile (\<lambda>c. c \<noteq> CHR ''.'') (rev s)
            in if length r = length s then [] else CHR ''.'' # rev r))"

text \<open>\<open>filepath.Rel\<close> of a path below the directory: the remaining components, joined.\<close>

fun joinSlash :: "string list \<Rightarrow> string" where
  "joinSlash [] = []"
| "joinSlash [c] = c"
| "joinSlash (c # cs) = c @ CHR ''/'' # joinSlash cs"

definition Rel :: "path \<Rightarrow> path \<Rightarrow> string" where
  "Rel d p = joinSlash (drop (length d) p)"

subsection \<open>File system calls\<close>

definition lookup :: "fs \<Rightarrow> path \<Rightarrow> node option" where
  "lookup t p = fmlookup t p"

text \<open>
  \<open>os.Stat\<close>: a file on the way to the path is an error other than "does not exist";
  otherwise the node at the path, if any.
\<close>

definition stat :: "fs \<Rightarrow> path \<Rightarrow> error + node option" where
  "stat t p =
     (case filter (\<lambda>q. q \<noteq> p \<and> (case lookup t q of Some (File _) \<Rightarrow> True | _ \<Rightarrow> False))
             (prefixes p) of
        q # _ \<Rightarrow> Inl (NotADirectory q)
      | [] \<Rightarrow> Inr (lookup t p))"

text \<open>\<open>os.MkdirAll\<close>: every missing directory on the way is created; a file on the way fails.\<close>

fun mkdirFrom :: "path \<Rightarrow> string list \<Rightarrow> fs \<Rightarrow> error option \<times> fs" where
  "mkdirFrom p [] t =
     (case lookup t p of
        Some (File _) \<Rightarrow> (Some (NotADirectory p), t)
      | Some Dir \<Rightarrow> (None, t)
      | None \<Rightarrow> (None, fmupd p Dir t))"
| "mkdirFrom p (c # cs) t =
     (case lookup t p of
        Some (File _) \<Rightarrow> (Some (NotADirectory p), t)
      | Some Dir \<Rightarrow> mkdirFrom (p @ [c]) cs t
      | None \<Rightarrow> mkdirFrom (p @ [c]) cs (fmupd p Dir t))"

definition MkdirAll :: "path \<Rightarrow> fs \<Rightarrow> error option \<times> fs" where
  "MkdirAll p t = mkdirFrom [] p t"

text \<open>
  Modelled from the spec: \<open>WriteFile\<close> of this package is not among the sources; the
  document writer "creates parent directories as needed; overwrites existing file content".
\<close>

definition WriteFile :: "path \<Rightarrow> string \<Rightarrow> fs \<Rightarrow> error option \<times> fs" where
  "WriteFile p data t =
     (case MkdirAll (butlast p) t of
        (Some e, t') \<Rightarrow> (Some e, t')
      | (None, t') \<Rightarrow>
          (case lookup t' p of
             Some Dir \<Rightarrow> (Some (IsADirectory p), t')
           | _ \<Rightarrow> (None, fmupd p (File data) t')))"

text \<open>
  Modelled from the spec: \<open>parseJSON\<close> of this package is not among the sources. It
  "returns the parsed document; if the file does not exist, returns a sentinel absent
  value (not an error); any other I/O failure or malformed JSON is a fatal parse error
  carrying the file path"; a wrong top-level shape is malformed.
\<close>

definition parseJSON :: "codec \<Rightarrow> fs \<Rightarrow> path \<Rightarrow> error + doc option" where
  "parseJSON c t p =
     (case stat t p of
        Inl e \<Rightarrow> Inl e
      | Inr None \<Rightarrow> Inr None
      | Inr (Some Dir) \<Rightarrow> Inl (IsADirectory p)
      | Inr (Some (File data)) \<Rightarrow>
          (case unmarshal c data of
             Some (JObj d) \<Rightarrow> Inr (Some d)
           | _ \<Rightarrow> Inl (Malformed p)))"

text \<open>
  Modelled from the spec: \<open>parseJSONArray\<close> is not among the sources; "same absence rule
  but for a top-level JSON array of documents; an empty/absent file yields an empty
  sequence".
\<close>

fun asDocs :: "json list \<Rightarrow> doc list option" where
  "asDocs [] = Some []"
| "asDocs (JObj d # js) = (case asDocs js of None \<Rightarrow> None | Some ds \<Rightarrow> Some (d # ds))"
| "asDocs (_ # js) = None"

definition parseJSONArray :: "codec \<Rightarrow> fs \<Rightarrow> path \<Rightarrow> error + doc list" where
  "parseJSONArray c t p =
     (case stat t p of
        Inl e \<Rightarrow> Inl e
      | Inr None \<Rightarrow> Inr []
      | Inr (Some Dir) \<Rightarrow> Inl (IsADirectory p)
      | Inr (Some (File data)) \<Rightarrow>
          (if data = [] then Inr []
           else (case unmarshal c data of
                   Some (JArr js) \<Rightarrow>
                     (case asDocs js of None \<Rightarrow> Inl (Malformed p) | Some ds \<Rightarrow> Inr ds)
                 | _ \<Rightarrow> Inl (Malformed p))))"

subsection \<open>Walking directories\<close>

definition children :: "fs \<Rightarrow> path \<Rightarrow> string list" where
  "children t d =
     sorted_list_of_fset (fimage last (ffilter (\<lambda>p. p \<noteq> [] \<and> butlast p = d) (fmdom t)))"

fun visitAll :: "(path \<Rightarrow> 'a \<Rightarrow> error + 'a) \<Rightarrow> path list \<Rightarrow> 'a \<Rightarrow> error + 'a" where
  "visitAll fn [] acc = Inr acc"
| "visitAll fn (p # ps) acc = (case fn p acc of Inl e \<Rightarrow> Inl e | Inr acc' \<Rightarrow> visitAll fn ps acc')"

text \<open>
  Modelled from the spec: \<open>directoryWalker.walk\<close> is not among the sources. "If rootPath
  does not exist, the walk is a silent no-op; if rootPath exists but is not a directory,
  that is a fatal error. Entries are visited in a deterministic order (lexicographic by
  name); a visitor error aborts immediately." The visitor's captured variables are the
  accumulator. With \<open>onlyDirs\<close> only directory entries are visited.
\<close>

definition dw_walk :: "fs \<Rightarrow> path \<Rightarrow> bool \<Rightarrow> (path \<Rightarrow> 'a \<Rightarrow> error + 'a) \<Rightarrow> 'a \<Rightarrow> error + 'a" where
  "dw_walk t d onlyDirs fn acc =
     (case stat t d of
        Inl e \<Rightarrow> Inl e
      | Inr None \<Rightarrow> Inr acc
      | Inr (Some (File _)) \<Rightarrow> Inl (NotADirectory d)
      | Inr (Some Dir) \<Rightarrow>
          visitAll fn
            (map (\<lambda>n. d @ [n])
               (filter (\<lambda>n. \<not> onlyDirs \<or> lookup t (d @ [n]) = Some Dir) (children t d)))
            acc)"

text \<open>
  Modelled from the spec: the package's \<open>walk\<close> is not among the sources; it is the
  "recursive full-subtree variant": every file below the directory, reached through
  directories only, in lexicographic order.
\<close>

definition filesUnder :: "fs \<Rightarrow> path \<Rightarrow> path list" where
  "filesUnder t d =
     sorted_list_of_fset (ffilter
       (\<lambda>p. strict_prefix d p
            \<and> (case lookup t p of Some (File _) \<Rightarrow> True | _ \<Rightarrow> False)
            \<and> list_all (\<lambda>q. if strict_prefix d q \<and> q \<noteq> p then lookup t q = Some Dir else True)
                 (prefixes p))
       (fmdom t))"

definition walk :: "fs \<Rightarrow> path \<Rightarrow> (path \<Rightarrow> 'a \<Rightarrow> error + 'a) \<Rightarrow> 'a \<Rightarrow> error + 'a" where
  "walk t d fn acc =
     (case stat t d of
        Inl e \<Rightarrow> Inl e
      | Inr None \<Rightarrow> Inr acc
      | Inr (Some (File _)) \<Rightarrow> Inl (NotADirectory d)
      | Inr (Some Dir) \<Rightarrow> visitAll fn (filesUnder t d) acc)"

section \<open>The app structure\<close>

text \<open>
  Modelled from the spec: the names of the section directories and files are declared
  outside the sources; they are the on-disk layout the spec lists.
\<close>

definition NameAuth :: string where "NameAuth = ''auth''"
definition NameFunctions :: string where "NameFunctions = ''functions''"
definition NameDataSources :: string where "NameDataSources = ''data_sources''"
definition NameHTTPEndpoints :: string where "NameHTTPEndpoints = ''http_endpoints''"
definition NameSync :: string where "NameSync = ''sync''"
definition NameSchema :: string where "NameSchema = ''schema''"
definition NameSource :: string where "NameSource = ''source''"
definition FileConfig :: string where "FileConfig = ''config.json''"
definition FileRules :: string where "FileRules = ''rules.json''"
definition FileSchema :: string where "FileSchema = ''schema.json''"
definition FileSource :: string where "FileSource = ''source.js''"
definition FileProviders :: string where "FileProviders = ''providers.json''"
definition FileCustomUserData :: string where "FileCustomUserData = ''custom_user_data.json''"
definition extJS :: string where "extJS = ''.js''"

record AuthStructure =
  CustomUserData :: "doc option"
  Providers :: "doc option"

text \<open>
  A rule or webhook document is an association list; a nil one behaves in the writers as
  the empty one does. A slice that the writers only range over is a list, the nil slice
  being the empty list. The slice \<open>Configs\<close> is marshalled, and there nil and empty
  differ (\<open>null\<close> and \<open>[]\<close>): it is an optional list, \<open>None\<close> the nil slice.
\<close>

record DataSourceStructure =
  Config :: "doc option"
  Rules :: "doc list"

record FunctionsStructure =
  Configs :: "doc list option"
  Sources :: "(string \<times> string) list"

record HTTPEndpointStructure =
  Config :: "doc option"
  IncomingWebhooks :: "doc list"

record SyncStructure =
  Config :: "doc option"

definition sliceJson :: "doc list option \<Rightarrow> json" where
  "sliceJson ds = (case ds of None \<Rightarrow> JNull | Some l \<Rightarrow> JArr (map JObj l))"

definition docJson :: "doc option \<Rightarrow> json" where
  "docJson d = (case d of None \<Rightarrow> JNull | Some kv \<Rightarrow> JObj kv)"

text \<open>Indexing a possibly nil map: the nil interface at an absent key.\<close>

definition index :: "doc \<Rightarrow> string \<Rightarrow> json" where
  "index d k = (case map_of d k of None \<Rightarrow> JNull | Some v \<Rightarrow> v)"

text \<open>The type assertion \<open>v.(string)\<close> with its \<open>ok\<close>.\<close>

definition asString :: "json \<Rightarrow> string option" where
  "asString v = (case v of JStr s \<Rightarrow> Some s | _ \<Rightarrow> None)"

text \<open>\<open>fmt.Sprintf("%s", v)\<close>.\<close>

definition Sprintf_s :: "codec \<Rightarrow> json \<Rightarrow> string" where
  "Sprintf_s c v = (case v of JStr s \<Rightarrow> s | JNull \<Rightarrow> ''%!s(<nil>)'' | _ \<Rightarrow> badverb c v)"

section \<open>Loading\<close>

definition parseAuth :: "codec \<Rightarrow> fs \<Rightarrow> path \<Rightarrow> error + AuthStructure option" where
  "parseAuth c t rootDir =
     (let dir = Join rootDir [NameAuth] in
      case stat t dir of
        Inl e \<Rightarrow> Inl e
      | Inr None \<Rightarrow> Inr None
      | Inr (Some _) \<Rightarrow>
          (case parseJSON c t (Join dir [FileCustomUserData]) of
             Inl e \<Rightarrow> Inl e
           | Inr customUserData \<Rightarrow>
               (case parseJSON c t (Join dir [FileProviders]) of
                  Inl e \<Rightarrow> Inl e
                | Inr providers \<Rightarrow>
                    Inr (Some \<lparr>CustomUserData = customUserData, Providers = providers\<rparr>))))"

text \<open>
  The visitor of \<open>parseFunctionsV2\<close>; the map \<open>sources\<close> it fills is the accumulator.
  The sequence that \<open>parseJSONArray\<close> returns is stored as a slice that is not nil.
\<close>

definition sourceVisitor :: "fs \<Rightarrow> path \<Rightarrow> path \<Rightarrow> (string \<times> string) list
    \<Rightarrow> error + (string \<times> string) list" where
  "sourceVisitor t dir p sources =
     (if Ext p \<noteq> extJS then Inr sources
      else (case stat t p of
              Inr (Some (File data)) \<Rightarrow> Inr (AList.update (Rel dir p) data sources)
            | Inr (Some Dir) \<Rightarrow> Inl (IsADirectory p)
            | Inr None \<Rightarrow> Inl (NotExist p)
            | Inl e \<Rightarrow> Inl e))"

definition parseFunctionsV2 :: "codec \<Rightarrow> fs \<Rightarrow> path \<Rightarrow> error + FunctionsStructure option" where
  "parseFunctionsV2 c t rootDir =
     (let dir = Join rootDir [NameFunctions] in
      case stat t dir of
        Inl e \<Rightarrow> Inl e
      | Inr None \<Rightarrow> Inr None
      | Inr (Some _) \<Rightarrow>
          (case parseJSONArray c t (Join dir [FileConfig]) of
             Inl e \<Rightarrow> Inl e
           | Inr configs \<Rightarrow>
               (case walk t dir (sourceVisitor t dir) [] of
                  Inl e \<Rightarrow> Inl e
                | Inr sources \<Rightarrow> Inr (Some \<lparr>Configs = Some configs, Sources = sources\<rparr>))))"

text \<open>
  The three nested visitors of \<open>parseDataSources\<close>, innermost first. Assigning the
  schema into a nil rule map is Go's run-time panic.
\<close>

definition collVisitor :: "codec \<Rightarrow> fs \<Rightarrow> path \<Rightarrow> doc list \<Rightarrow> error + doc list" where
  "collVisitor c t collPath rules =
     (let rulePath = Join collPath [FileRules] in
      case stat t rulePath of
        Inl e \<Rightarrow> Inl e
      | Inr None \<Rightarrow> Inr rules
      | Inr (Some _) \<Rightarrow>
          (case parseJSON c t rulePath of
             Inl e \<Rightarrow> Inl e
           | Inr rule \<Rightarrow>
               (case parseJSON c t (Join collPath [FileSchema]) of
                  Inl e \<Rightarrow> Inl e
                | Inr schema \<Rightarrow>
                    (case rule of
                       None \<Rightarrow> Inl NilMapAssignment
                     | Some r \<Rightarrow> Inr (rules @ [AList.update NameSchema (docJson schema) r])))))"

definition dbVisitor :: "codec \<Rightarrow> fs \<Rightarrow> path \<Rightarrow> doc list \<Rightarrow> error + doc list" where
  "dbVisitor c t dbPath rules = dw_walk t dbPath True (collVisitor c t) rules"

definition dsVisitor :: "codec \<Rightarrow> fs \<Rightarrow> path \<Rightarrow> DataSourceStructure list
    \<Rightarrow> error + DataSourceStructure list" where
  "dsVisitor c t p out =
     (case parseJSON c t (Join p [FileConfig]) of
        Inl e \<Rightarrow> Inl e
      | Inr config \<Rightarrow>
          (case dw_walk t p True (dbVisitor c t) [] of
             Inl e \<Rightarrow> Inl e
           | Inr rules \<Rightarrow> Inr (out @ [\<lparr>DataSourceStructure.Config = config, Rules = rules\<rparr>])))"

definition parseDataSources :: "codec \<Rightarrow> fs \<Rightarrow> path \<Rightarrow> error + DataSourceStructure list" where
  "parseDataSources c t rootDir =
     dw_walk t (Join rootDir [NameDataSources]) True (dsVisitor c t) []"

definition parseSync :: "codec \<Rightarrow> fs \<Rightarrow> path \<Rightarrow> error + SyncStructure option" where
  "parseSync c t rootDir =
     (let dir = Join rootDir [NameSync] in
      case stat t dir of
        Inl e \<Rightarrow> Inl e
      | Inr None \<Rightarrow> Inr None
      | Inr (Some _) \<Rightarrow>
          (case parseJSON c t (Join dir [FileConfig]) of
             Inl e \<Rightarrow> Inl e
           | Inr config \<Rightarrow> Inr (Some \<lparr>SyncStructure.Config = config\<rparr>)))"

text \<open>
  The sections whose structures, parsers and writers are declared outside the sources:
  their types are the parameters \<open>'sec\<close> (secrets), \<open>'gql\<close> (GraphQL) and \<open>'svc\<close>
  (a service), and their functions are taken as given.
\<close>

record ('sec, 'gql, 'svc) AppStructureV2 =
  ConfigVersion :: int
  ID :: string
  Name :: string
  Location :: string
  DeploymentModel :: string
  Environment :: string
  Environments :: "(string \<times> doc) list"
  AllowedRequestOrigins :: "string list"
  Values :: "doc list"
  Auth :: "AuthStructure option"
  Functions :: "FunctionsStructure option"
  Triggers :: "doc list"
  DataSources :: "DataSourceStructure list"
  HTTPEndpoints :: "HTTPEndpointStructure list"
  Services :: "'svc list"
  GraphQL :: "'gql option"
  Hosting :: "doc option"
  Sync :: "SyncStructure option"
  Secrets :: "'sec option"

record ('sec, 'gql, 'svc) package =
  parseSecrets :: "fs \<Rightarrow> path \<Rightarrow> error + 'sec option"
  parseEnvironments :: "fs \<Rightarrow> path \<Rightarrow> error + (string \<times> doc) list"
  parseJSONFiles :: "fs \<Rightarrow> path \<Rightarrow> error + doc list"
  parseGraphQL :: "fs \<Rightarrow> path \<Rightarrow> error + 'gql option"
  parseServices :: "fs \<Rightarrow> path \<Rightarrow> error + 'svc list"
  parseFunctions :: "fs \<Rightarrow> path \<Rightarrow> error + doc list"
  writeSecrets :: "path \<Rightarrow> 'sec option \<Rightarrow> fs \<Rightarrow> error option \<times> fs"
  writeEnvironments :: "path \<Rightarrow> (string \<times> doc) list \<Rightarrow> fs \<Rightarrow> error option \<times> fs"
  writeValues :: "path \<Rightarrow> doc list \<Rightarrow> fs \<Rightarrow> error option \<times> fs"
  writeGraphQL :: "path \<Rightarrow> 'gql \<Rightarrow> fs \<Rightarrow> error option \<times> fs"
  writeServices :: "path \<Rightarrow> 'svc list \<Rightarrow> fs \<Rightarrow> error option \<times> fs"
  writeTriggers :: "path \<Rightarrow> doc list \<Rightarrow> fs \<Rightarrow> error option \<times> fs"
  zeroGraphQL :: "'gql"

definition hepVisitor :: "('sec, 'gql, 'svc) package \<Rightarrow> codec \<Rightarrow> fs \<Rightarrow> path \<Rightarrow> HTTPEndpointStructure list
    \<Rightarrow> error + HTTPEndpointStructure list" where
  "hepVisitor pk c t p out =
     (case parseJSON c t (Join p [FileConfig]) of
        Inl e \<Rightarrow> Inl e
      | Inr config \<Rightarrow>
          (case parseFunctions pk t (Join p []) of
             Inl e \<Rightarrow> Inl e
           | Inr webhooks \<Rightarrow>
               Inr (out @ [\<lparr>HTTPEndpointStructure.Config = config, IncomingWebhooks = webhooks\<rparr>])))"

definition parseHTTPEndpoints :: "('sec, 'gql, 'svc) package \<Rightarrow> codec \<Rightarrow> fs \<Rightarrow> path
    \<Rightarrow> error + HTTPEndpointStructure list" where
  "parseHTTPEndpoints pk c t rootDir =
     dw_walk t (Join rootDir [NameHTTPEndpoints]) True (hepVisitor pk c t) []"

text \<open>
  One step of \<open>LoadData\<close>: a parser's error is returned with the receiver as it is,
  its result is stored into the receiver and the load goes on.
\<close>

definition loadStep :: "error + 'x \<Rightarrow> ('x \<Rightarrow> 'a \<Rightarrow> 'a) \<Rightarrow> ('a \<Rightarrow> error option \<times> 'a)
    \<Rightarrow> 'a \<Rightarrow> error option \<times> 'a" where
  "loadStep r store k a = (case r of Inl e \<Rightarrow> (Some e, a) | Inr x \<Rightarrow> k (store x a))"

definition LoadData :: "('sec, 'gql, 'svc) package \<Rightarrow> codec \<Rightarrow> fs \<Rightarrow> path
    \<Rightarrow> ('sec, 'gql, 'svc) AppStructureV2 \<Rightarrow> error option \<times> ('sec, 'gql, 'svc) AppStructureV2" where
  "LoadData pk c t rootDir =
     loadStep (parseSecrets pk t rootDir) (\<lambda>x a. a\<lparr>Secrets := x\<rparr>)
    (loadStep (parseEnvironments pk t rootDir) (\<lambda>x a. a\<lparr>Environments := x\<rparr>)
    (loadStep (parseJSONFiles pk t (Join rootDir [''values''])) (\<lambda>x a. a\<lparr>Values := x\<rparr>)
    (loadStep (parseAuth c t rootDir) (\<lambda>x a. a\<lparr>Auth := x\<rparr>)
    (loadStep (parseSync c t rootDir) (\<lambda>x a. a\<lparr>Sync := x\<rparr>)
    (loadStep (parseFunctionsV2 c t rootDir) (\<lambda>x a. a\<lparr>Functions := x\<rparr>)
    (loadStep (parseJSONFiles pk t (Join rootDir [''triggers''])) (\<lambda>x a. a\<lparr>Triggers := x\<rparr>)
    (loadStep (parseGraphQL pk t rootDir)
       (\<lambda>x a. case x of None \<Rightarrow> a | Some g \<Rightarrow> a\<lparr>GraphQL := Some g\<rparr>)
    (loadStep (parseServices pk t rootDir) (\<lambda>x a. a\<lparr>Services := x\<rparr>)
    (loadStep (parseDataSources c t rootDir) (\<lambda>x a. a\<lparr>DataSources := x\<rparr>)
    (loadStep (parseHTTPEndpoints pk c t rootDir) (\<lambda>x a. a\<lparr>HTTPEndpoints := x\<rparr>)
       (\<lambda>a. (None, a))))))))))))"

section \<open>Writing\<close>

text \<open>A writer takes the tree and returns its error, if any, with the tree as it left it.\<close>

type_synonym writer = "fs \<Rightarrow> error option \<times> fs"

definition andThen :: "writer \<Rightarrow> writer \<Rightarrow> writer" where
  "andThen f g t = (case f t of (Some e, t') \<Rightarrow> (Some e, t') | (None, t') \<Rightarrow> g t')"

definition writeJSON :: "codec \<Rightarrow> json \<Rightarrow> path \<Rightarrow> writer" where
  "writeJSON c v p t = (case marshal c v of Inl e \<Rightarrow> (Some e, t) | Inr data \<Rightarrow> WriteFile p data t)"

text \<open>
  The loop over the map \<open>sources\<close>: Go leaves the order of a \<open>range\<close> over a map
  open; here it is the order of the association list.
\<close>

fun writeSources :: "path \<Rightarrow> (string \<times> string) list \<Rightarrow> writer" where
  "writeSources dir [] t = (None, t)"
| "writeSources dir ((p, src) # rest) t =
     andThen (WriteFile (Join dir [p]) src) (writeSources dir rest) t"

definition writeFunctionsV2 :: "codec \<Rightarrow> path \<Rightarrow> FunctionsStructure option \<Rightarrow> writer" where
  "writeFunctionsV2 c rootDir functions t =
     (let configs = (case functions of None \<Rightarrow> Some [] | Some f \<Rightarrow> Configs f);
          sources = (case functions of None \<Rightarrow> [] | Some f \<Rightarrow> Sources f);
          dir = Join rootDir [NameFunctions]
      in case marshal c (sliceJson configs) of
           Inl e \<Rightarrow> (Some e, t)
         | Inr data \<Rightarrow>
             andThen (WriteFile (Join dir [FileConfig]) data) (writeSources dir sources) t)"

definition writeAuth :: "codec \<Rightarrow> path \<Rightarrow> AuthStructure option \<Rightarrow> writer" where
  "writeAuth c rootDir auth t =
     (case auth of
        None \<Rightarrow> (None, t)
      | Some a \<Rightarrow>
          (let dir = Join rootDir [NameAuth] in
           andThen
             (case Providers a of
                None \<Rightarrow> (\<lambda>t. (None, t))
              | Some d \<Rightarrow> writeJSON c (JObj d) (Join dir [FileProviders]))
             (case CustomUserData a of
                None \<Rightarrow> (\<lambda>t. (None, t))
              | Some d \<Rightarrow> writeJSON c (JObj d) (Join dir [FileCustomUserData]))
             t))"

definition writeSync :: "codec \<Rightarrow> path \<Rightarrow> SyncStructure option \<Rightarrow> writer" where
  "writeSync c rootDir sync t =
     (case sync of
        None \<Rightarrow> (None, t)
      | Some s \<Rightarrow>
          (case SyncStructure.Config s of
             None \<Rightarrow> (None, t)
           | Some d \<Rightarrow> writeJSON c (JObj d) (Join rootDir [NameSync, FileConfig]) t))"

text \<open>The body of the loop over the rules of one data source.\<close>

definition writeRule :: "codec \<Rightarrow> path \<Rightarrow> string \<Rightarrow> doc \<Rightarrow> writer" where
  "writeRule c dir name rule t =
     (let schema = index rule NameSchema in
      case marshal c schema of
        Inl e \<Rightarrow> (Some e, t)
      | Inr dataSchema \<Rightarrow>
          (let ruleTemp = AList.delete NameSchema rule in
           case marshal c (JObj ruleTemp) of
             Inl e \<Rightarrow> (Some e, t)
           | Inr dataRule \<Rightarrow>
               andThen
                 (WriteFile (Join dir [name, Sprintf_s c (index rule ''database''),
                                       Sprintf_s c (index rule ''collection''), FileRules]) dataRule)
                 (WriteFile (Join dir [name, Sprintf_s c (index rule ''database''),
                                       Sprintf_s c (index rule ''collection''), FileSchema]) dataSchema)
                 t))"

fun writeRules :: "codec \<Rightarrow> path \<Rightarrow> string \<Rightarrow> doc list \<Rightarrow> writer" where
  "writeRules c dir name [] t = (None, t)"
| "writeRules c dir name (rule # rest) t =
     andThen (writeRule c dir name rule) (writeRules c dir name rest) t"

text \<open>The body of the loop over the data sources.\<close>

definition writeDataSource :: "codec \<Rightarrow> path \<Rightarrow> DataSourceStructure \<Rightarrow> writer" where
  "writeDataSource c dir ds t =
     (case asString (index (case DataSourceStructure.Config ds of None \<Rightarrow> [] | Some d \<Rightarrow> d) ''name'') of
        None \<Rightarrow> (Some (ErrMsg ''error writing datasources''), t)
      | Some name \<Rightarrow>
          andThen
            (writeJSON c (docJson (DataSourceStructure.Config ds)) (Join dir [name, FileConfig]))
            (writeRules c dir name (Rules ds))
            t)"

fun writeDataSourcesLoop :: "codec \<Rightarrow> path \<Rightarrow> DataSourceStructure list \<Rightarrow> writer" where
  "writeDataSourcesLoop c dir [] t = (None, t)"
| "writeDataSourcesLoop c dir (ds # rest) t =
     andThen (writeDataSource c dir ds) (writeDataSourcesLoop c dir rest) t"

definition writeDataSources :: "codec \<Rightarrow> path \<Rightarrow> DataSourceStructure list \<Rightarrow> writer" where
  "writeDataSources c rootDir dataSources t =
     (let dir = Join rootDir [NameDataSources] in
      andThen (MkdirAll dir) (writeDataSourcesLoop c dir dataSources) t)"

text \<open>The body of the loop over the incoming webhooks of one endpoint.\<close>

definition writeWebhook :: "codec \<Rightarrow> path \<Rightarrow> string \<Rightarrow> doc \<Rightarrow> writer" where
  "writeWebhook c dir nameHTTPEndpoint webhook t =
     (case asString (index webhook NameSource) of
        None \<Rightarrow> (Some (ErrMsg ''error writing http endpoints''), t)
      | Some src \<Rightarrow>
          (case asString (index webhook ''name'') of
             None \<Rightarrow> (Some (ErrMsg ''error writing http endpoints''), t)
           | Some name \<Rightarrow>
               (let dirHTTPEndpoint = Join dir [nameHTTPEndpoint, name];
                    webhookTemp = AList.delete NameSource webhook
                in case marshal c (JObj webhookTemp) of
                     Inl e \<Rightarrow> (Some e, t)
                   | Inr config \<Rightarrow>
                       andThen (WriteFile (Join dirHTTPEndpoint [FileConfig]) config)
                         (WriteFile (Join dirHTTPEndpoint [FileSource]) src) t)))"

fun writeWebhooks :: "codec \<Rightarrow> path \<Rightarrow> string \<Rightarrow> doc list \<Rightarrow> writer" where
  "writeWebhooks c dir n [] t = (None, t)"
| "writeWebhooks c dir n (webhook # rest) t =
     andThen (writeWebhook c dir n webhook) (writeWebhooks c dir n rest) t"

definition writeHTTPEndpoint :: "codec \<Rightarrow> path \<Rightarrow> HTTPEndpointStructure \<Rightarrow> writer" where
  "writeHTTPEndpoint c dir httpEndpoint t =
     (case asString (index (case HTTPEndpointStructure.Config httpEndpoint of None \<Rightarrow> [] | Some d \<Rightarrow> d)
                       ''name'') of
        None \<Rightarrow> (Some (ErrMsg ''error writing http endpoints''), t)
      | Some nameHTTPEndpoint \<Rightarrow>
          andThen
            (writeJSON c (docJson (HTTPEndpointStructure.Config httpEndpoint))
               (Join dir [nameHTTPEndpoint, FileConfig]))
            (writeWebhooks c dir nameHTTPEndpoint (IncomingWebhooks httpEndpoint))
            t)"

fun writeHTTPEndpointsLoop :: "codec \<Rightarrow> path \<Rightarrow> HTTPEndpointStructure list \<Rightarrow> writer" where
  "writeHTTPEndpointsLoop c dir [] t = (None, t)"
| "writeHTTPEndpointsLoop c dir (e # rest) t =
     andThen (writeHTTPEndpoint c dir e) (writeHTTPEndpointsLoop c dir rest) t"

definition writeHTTPEndpoints :: "codec \<Rightarrow> path \<Rightarrow> HTTPEndpointStructure list \<Rightarrow> writer" where
  "writeHTTPEndpoints c rootDir httpEndpoints t =
     (let dir = Join rootDir [NameHTTPEndpoints] in
      andThen (MkdirAll dir) (writeHTTPEndpointsLoop c dir httpEndpoints) t)"

definition WriteData :: "('sec, 'gql, 'svc) package \<Rightarrow> codec \<Rightarrow> path
    \<Rightarrow> ('sec, 'gql, 'svc) AppStructureV2 \<Rightarrow> writer" where
  "WriteData pk c rootDir a =
     andThen (writeSecrets pk rootDir (Secrets a))
    (andThen (writeEnvironments pk rootDir (Environments a))
    (andThen (writeValues pk rootDir (Values a))
    (andThen (writeGraphQL pk rootDir (case GraphQL a of None \<Rightarrow> zeroGraphQL pk | Some g \<Rightarrow> g))
    (andThen (writeServices pk rootDir (Services a))
    (andThen (writeFunctionsV2 c rootDir (Functions a))
    (andThen (writeAuth c rootDir (Auth a))
    (andThen (writeSync c rootDir (Sync a))
    (andThen (writeDataSources c rootDir (DataSources a))
    (andThen (writeHTTPEndpoints c rootDir (HTTPEndpoints a))
    (andThen (writeHTTPEndpoints c rootDir (HTTPEndpoints a))
       (writeTriggers pk rootDir (Triggers a))))))))))))"

text \<open>\<open>WriteData\<close> with the second of its two calls of the endpoint writer left out.\<close>

definition WriteDataOnce :: "('sec, 'gql, 'svc) package \<Rightarrow> codec \<Rightarrow> path
    \<Rightarrow> ('sec, 'gql, 'svc) AppStructureV2 \<Rightarrow> writer" where
  "WriteDataOnce pk c rootDir a =
     andThen (writeSecrets pk rootDir (Secrets a))
    (andThen (writeEnvironments pk rootDir (Environments a))
    (andThen (writeValues pk rootDir (Values a))
    (andThen (writeGraphQL pk rootDir (case GraphQL a of None \<Rightarrow> zeroGraphQL pk | Some g \<Rightarrow> g))
    (andThen (writeServices pk rootDir (Services a))
    (andThen (writeFunctionsV2 c rootDir (Functions a))
    (andThen (writeAuth c rootDir (Auth a))
    (andThen (writeSync c rootDir (Sync a))
    (andThen (writeDataSources c rootDir (DataSources a))
    (andThen (writeHTTPEndpoints c rootDir (HTTPEndpoints a))
       (writeTriggers pk rootDir (Triggers a)))))))))))"

section \<open>Writers as sequences of file system calls\<close>

text \<open>
  What a writer does to the tree is a sequence of \<open>os.MkdirAll\<close> and \<open>WriteFile\<close> calls,
  cut short by the first failing call or check.
\<close>

datatype fsop = Mk path | Wr path string | Fail error

fun runOp :: "fsop \<Rightarrow> writer" where
  "runOp (Mk p) t = MkdirAll p t"
| "runOp (Wr p data) t = WriteFile p data t"
| "runOp (Fail e) t = (Some e, t)"

fun runOps :: "fsop list \<Rightarrow> writer" where
  "runOps [] t = (None, t)"
| "runOps (x # xs) t = andThen (runOp x) (runOps xs) t"

text \<open>
  The calls of the writers in the sources, with each path given by the elements that are
  joined onto the root directory.
\<close>

datatype sop = SMk "string list" | SWr "string list" string | SFail error

fun inst :: "path \<Rightarrow> sop \<Rightarrow> fsop" where
  "inst r (SMk cs) = Mk (Join r cs)"
| "inst r (SWr cs data) = Wr (Join r cs) data"
| "inst r (SFail e) = Fail e"

definition sopsJSON :: "codec \<Rightarrow> json \<Rightarrow> string list \<Rightarrow> sop list" where
  "sopsJSON c v cs = (case marshal c v of Inl e \<Rightarrow> [SFail e] | Inr data \<Rightarrow> [SWr cs data])"








definition sopsWebhook :: "codec \<Rightarrow> string \<Rightarrow> doc \<Rightarrow> sop list" where
  "sopsWebhook c nameHTTPEndpoint webhook =
     (case asString (index webhook NameSource) of
        None \<Rightarrow> [SFail (ErrMsg ''error writing http endpoints'')]
      | Some src \<Rightarrow>
          (case asString (index webhook ''name'') of
             None \<Rightarrow> [SFail (ErrMsg ''error writing http endpoints'')]
           | Some name \<Rightarrow>
               (case marshal c (JObj (AList.delete NameSource webhook)) of
                  Inl e \<Rightarrow> [SFail e]
                | Inr config \<Rightarrow>
                    [SWr [NameHTTPEndpoints, nameHTTPEndpoint, name, FileConfig] config,
                     SWr [NameHTTPEndpoints, nameHTTPEndpoint, name, FileSource] src])))"

definition sopsHTTPEndpoint :: "codec \<Rightarrow> HTTPEndpointStructure \<Rightarrow> sop list" where
  "sopsHTTPEndpoint c httpEndpoint =
     (case asString (index (case HTTPEndpointStructure.Config httpEndpoint of None \<Rightarrow> [] | Some d \<Rightarrow> d)
                       ''name'') of
        None \<Rightarrow> [SFail (ErrMsg ''error writing http endpoints'')]
      | Some n \<Rightarrow>
          sopsJSON c (docJson (HTTPEndpointStructure.Config httpEndpoint)) [NameHTTPEndpoints, n, FileConfig]
          @ concat (map (sopsWebhook c n) (IncomingWebhooks httpEndpoint)))"

definition sopsHTTPEndpoints :: "codec \<Rightarrow> HTTPEndpointStructure list \<Rightarrow> sop list" where
  "sopsHTTPEndpoints c httpEndpoints =
     SMk [NameHTTPEndpoints] # concat (map (sopsHTTPEndpoint c) httpEndpoints)"

text \<open>
  A call is settled in a tree when the directories it needs are there and its target, if
  it writes one, is a file already. One tree is below another in shape when its directories
  and files are directories and files there.
\<close>

fun settled :: "fs \<Rightarrow> fsop \<Rightarrow> bool" where
  "settled t (Mk p) = (\<forall>q. prefix q p \<longrightarrow> fmlookup t q = Some Dir)"
| "settled t (Wr p data) =
     (p \<noteq> [] \<and> (\<forall>q. strict_prefix q p \<longrightarrow> fmlookup t q = Some Dir) \<and> (\<exists>d. fmlookup t p = Some (File d)))"
| "settled t (Fail e) = False"

definition shape_le :: "fs \<Rightarrow> fs \<Rightarrow> bool" where
  "shape_le t t' =
     (\<forall>q. (fmlookup t q = Some Dir \<longrightarrow> fmlookup t' q = Some Dir)
        \<and> (\<forall>d. fmlookup t q = Some (File d) \<longrightarrow> (\<exists>d'. fmlookup t' q = Some (File d'))))"

text \<open>The content last written to a path by a sequence of calls.\<close>

fun lastW :: "fsop list \<Rightarrow> path \<Rightarrow> string option" where
  "lastW [] q = None"
| "lastW (x # xs) q =
     (case lastW xs q of
        Some d \<Rightarrow> Some d
      | None \<Rightarrow> (case x of Wr p d \<Rightarrow> if p = q then Some d else None | _ \<Rightarrow> None))"




text \<open>
  Joining elements onto a directory stays below it when no \<open>..\<close> among them steps
  above the directory. A call is contained when its path elements stay below the root.
\<close>

fun stays :: "path \<Rightarrow> string list \<Rightarrow> bool" where
  "stays p [] = True"
| "stays p (c # cs) =
     (if c = [] \<or> c = ''.'' then stays p cs
      else if c = ''..'' then p \<noteq> [] \<and> stays (butlast p) cs
      else stays (p @ [c]) cs)"

fun contained :: "sop \<Rightarrow> bool" where
  "contained (SMk cs) = stays [] (concat (map splitSlash cs))"
| "contained (SWr cs data) = stays [] (concat (map splitSlash cs))"
| "contained (SFail e) = True"


text \<open>
  What is assumed of a writer that is not among the sources: for each argument it is a
  sequence of directory creations and file writes at paths joined onto the root directory
  (sequential), and those paths stay below the root (contained).
\<close>

definition sequentialW :: "(path \<Rightarrow> writer) \<Rightarrow> bool" where
  "sequentialW w = (\<exists>ss. \<forall>r t. w r t = runOps (map (inst r) ss) t)"

definition containedW :: "(path \<Rightarrow> writer) \<Rightarrow> bool" where
  "containedW w = (\<exists>ss. list_all contained ss \<and> (\<forall>r t. w r t = runOps (map (inst r) ss) t))"






text \<open>The path of a rule's file, as the data-source writer derives it.\<close>

definition rulePath :: "codec \<Rightarrow> path \<Rightarrow> string \<Rightarrow> doc \<Rightarrow> string \<Rightarrow> path" where
  "rulePath c rootDir name rule file =
     Join rootDir [NameDataSources, name, Sprintf_s c (index rule ''database''),
                   Sprintf_s c (index rule ''collection''), file]"

section \<open>Sample inputs\<close>

text \<open>
  A small codec given by a table of documents and their file contents, a package whose
  other sections read nothing and write at most their own directory, and the values of
  the examples.
\<close>

definition sampleRule :: doc where
  "sampleRule = [(''database'', JStr ''db1''), (''collection'', JStr ''coll1'')]"

definition sampleSchema :: doc where
  "sampleSchema = [(''properties'', JObj [])]"

definition sampleConfig :: doc where
  "sampleConfig = [(''name'', JStr ''ds1''), (''type'', JStr ''mongodb-atlas'')]"

definition sampleTable :: "(json \<times> string) list" where
  "sampleTable =
     [(JObj sampleRule, ''{database:db1,collection:coll1}''),
      (JObj (sampleRule @ [(''schema'', JObj [])]), ''{database:db1,collection:coll1,schema:{}}''),
      (JObj sampleSchema, ''{properties:{}}''),
      (JObj sampleConfig, ''{name:ds1,type:mongodb-atlas}''),
      (JObj [(''name'', JStr ''ds2'')], ''{name:ds2}''),
      (JObj [(''collection'', JStr ''coll1'')], ''{collection:coll1}''),
      (JObj [(''name'', JStr ''hook'')], ''{name:hook}''),
      (JObj [], ''{}''),
      (JArr [], ''[]''),
      (JNull, ''null'')]"

definition sampleCodec :: codec where
  "sampleCodec =
     \<lparr>marshal = (\<lambda>v. case map_of sampleTable v of Some s \<Rightarrow> Inr s | None \<Rightarrow> Inl MarshalError),
      unmarshal = (\<lambda>s. map_of (map (\<lambda>(v, s). (s, v)) sampleTable) s),
      badverb = (\<lambda>v. ''%!s(?)'')\<rparr>"

definition samplePackage :: "(unit, unit, unit) package" where
  "samplePackage =
     \<lparr>parseSecrets = (\<lambda>t p. Inr None),
      parseEnvironments = (\<lambda>t p. Inr []),
      parseJSONFiles = (\<lambda>t p. Inr []),
      parseGraphQL = (\<lambda>t p. Inr None),
      parseServices = (\<lambda>t p. Inr []),
      parseFunctions = (\<lambda>t p. Inr []),
      writeSecrets = (\<lambda>p x t. (None, t)),
      writeEnvironments = (\<lambda>p x t. (None, t)),
      writeValues = (\<lambda>p x. MkdirAll (Join p [''values''])),
      writeGraphQL = (\<lambda>p x. MkdirAll (Join p [''graphql''])),
      writeServices = (\<lambda>p x t. (None, t)),
      writeTriggers = (\<lambda>p x. MkdirAll (Join p [''triggers''])),
      zeroGraphQL = ()\<rparr>"

definition sampleApp :: "(unit, unit, unit) AppStructureV2" where
  "sampleApp =
     \<lparr>ConfigVersion = 20210101, ID = '''', Name = ''app'', Location = ''US-VA'',
      DeploymentModel = ''GLOBAL'', Environment = '''', Environments = [],
      AllowedRequestOrigins = [], Values = [], Auth = None, Functions = None, Triggers = [],
      DataSources = [], HTTPEndpoints = [], Services = [], GraphQL = None, Hosting = None,
      Sync = None, Secrets = None\<rparr>"

text \<open>A root directory holding an empty \<open>data_sources\<close> directory and no \<open>auth\<close>.\<close>

definition sampleTreeEmpty :: fs where
  "sampleTreeEmpty =
     fmupd [''app'', ''data_sources''] Dir (fmupd [''app''] Dir (fmupd [] Dir fmempty))"

text \<open>
  The tree of the schema example: data source \<open>ds1\<close> with the collection
  \<open>db1/coll1\<close> holding \<open>rules.json\<close> and \<open>schema.json\<close>, and a directory
  \<open>db1/coll2\<close> holding neither.
\<close>

definition sampleTreeRules :: fs where
  "sampleTreeRules =
     fmupd [''app'', ''data_sources'', ''ds1'', ''db1'', ''coll2''] Dir
    (fmupd [''app'', ''data_sources'', ''ds1'', ''db1'', ''coll1'', ''schema.json'']
       (File ''{properties:{}}'')
    (fmupd [''app'', ''data_sources'', ''ds1'', ''db1'', ''coll1'', ''rules.json'']
       (File ''{database:db1,collection:coll1}'')
    (fmupd [''app'', ''data_sources'', ''ds1'', ''db1'', ''coll1''] Dir
    (fmupd [''app'', ''data_sources'', ''ds1'', ''db1''] Dir
    (fmupd [''app'', ''data_sources'', ''ds1'', ''config.json'']
       (File ''{name:ds1,type:mongodb-atlas}'')
    (fmupd [''app'', ''data_sources'', ''ds1''] Dir sampleTreeEmpty))))))"

text \<open>A data source whose Config has no \<open>name\<close>.\<close>

definition sampleNameless :: DataSourceStructure where
  "sampleNameless = \<lparr>DataSourceStructure.Config = Some [(''type'', JStr ''mongodb-atlas'')], Rules = []\<rparr>"

text \<open>The tree a nil Functions section is written to.\<close>

definition sampleTreeFunctions :: fs where
  "sampleTreeFunctions =
     fmupd [''app'', ''functions'', ''config.json''] (File ''[]'')
    (fmupd [''app'', ''functions''] Dir (fmupd [''app''] Dir (fmupd [] Dir fmempty)))"


text \<open>An endpoint with one incoming webhook, and the tree \<open>WriteData\<close> leaves for it.\<close>

definition sampleEndpoint :: HTTPEndpointStructure where
  "sampleEndpoint =
     \<lparr>HTTPEndpointStructure.Config = Some [(''name'', JStr ''ds2'')],
      IncomingWebhooks = [[(''name'', JStr ''hook''), (''source'', JStr ''exports = 1'')]]\<rparr>"

definition sampleTreeEndpoint :: fs where
  "sampleTreeEndpoint =
     fmupd [''app'', ''triggers''] Dir
    (fmupd [''app'', ''http_endpoints'', ''ds2'', ''hook'', ''source.js''] (File ''exports = 1'')
    (fmupd [''app'', ''http_endpoints'', ''ds2'', ''hook'', ''config.json''] (File ''{name:hook}'')
    (fmupd [''app'', ''http_endpoints'', ''ds2'', ''hook''] Dir
    (fmupd [''app'', ''http_endpoints'', ''ds2'', ''config.json''] (File ''{name:ds2}'')
    (fmupd [''app'', ''http_endpoints'', ''ds2''] Dir
    (fmupd [''app'', ''http_endpoints''] Dir
    (fmupd [''app'', ''functions'', ''config.json''] (File ''[]'')
    (fmupd [''app'', ''functions''] Dir
    (fmupd [''app'', ''graphql''] Dir
    (fmupd [''app'', ''values''] Dir sampleTreeEmpty))))))))))"




text \<open>
  A tree is well formed when every component of every path in it is a file name: not
  empty and without a separator.
\<close>

definition validName :: "string \<Rightarrow> bool" where
  "validName n = (n \<noteq> [] \<and> CHR ''/'' \<notin> set n)"

definition wellFormed :: "fs \<Rightarrow> bool" where
  "wellFormed t = fBall (fmdom t) (list_all validName)"

text \<open>
  A \<open>functions\<close> directory with a source file and a text file three levels down.
\<close>

definition sampleTreeSources :: fs where
  "sampleTreeSources =
     fmupd [''app'', ''functions'', ''a'', ''b'', ''c'', ''notes.txt''] (File ''to do'')
    (fmupd [''app'', ''functions'', ''a'', ''b'', ''c'', ''deep.js''] (File ''exports = 1'')
    (fmupd [''app'', ''functions'', ''a'', ''b'', ''c''] Dir
    (fmupd [''app'', ''functions'', ''a'', ''b''] Dir
    (fmupd [''app'', ''functions'', ''a''] Dir sampleTreeFunctions))))"



section \<open>Properties of loading\<close>

lemma loadStep_None:
  "loadStep r store k a = (None, a') \<Longrightarrow> \<exists>x. r = Inr x \<and> k (store x a) = (None, a')"
  by (auto simp: loadStep_def split: sum.splits)

lemma LoadData_sections:
  assumes "LoadData pk c t rootDir a0 = (None, a)"
  shows "parseAuth c t rootDir = Inr (Auth a)"
    and "parseSync c t rootDir = Inr (Sync a)"
    and "parseFunctionsV2 c t rootDir = Inr (Functions a)"
    and "parseDataSources c t rootDir = Inr (DataSources a)"
    and "parseHTTPEndpoints pk c t rootDir = Inr (HTTPEndpoints a)"
  using assms unfolding LoadData_def
  by (auto dest!: loadStep_None split: option.splits)

lemma visitAll_filter:
  assumes "\<And>p acc. p \<in> set ps \<Longrightarrow> \<not> P p \<Longrightarrow> fn p acc = Inr acc"
  shows "visitAll fn ps acc = visitAll fn (filter P ps) acc"
  using assms by (induction ps arbitrary: acc) (auto split: sum.splits)

text \<open>
  C6. When the \<open>auth\<close> directory under the root does not exist, \<open>parseAuth\<close> returns
  the nil structure without error, and every successful \<open>LoadData\<close> leaves the Auth field
  nil. When \<open>data_sources\<close> is a directory without entries, \<open>parseDataSources\<close> returns
  the empty sequence without error, and so does every successful \<open>LoadData\<close>.
\<close>

theorem absence_detection:
  "(stat t (Join rootDir [NameAuth]) = Inr None \<longrightarrow>
      parseAuth c t rootDir = Inr None
      \<and> (\<forall>a0 a. LoadData pk c t rootDir a0 = (None, a) \<longrightarrow> Auth a = None))
   \<and> (stat t (Join rootDir [NameDataSources]) = Inr (Some Dir)
        \<and> children t (Join rootDir [NameDataSources]) = [] \<longrightarrow>
      parseDataSources c t rootDir = Inr []
      \<and> (\<forall>a0 a. LoadData pk c t rootDir a0 = (None, a) \<longrightarrow> DataSources a = []))"
proof (intro conjI impI allI)
  assume "stat t (Join rootDir [NameAuth]) = Inr None"
  then show p: "parseAuth c t rootDir = Inr None"
    by (simp add: parseAuth_def)
  fix a0 a assume "LoadData pk c t rootDir a0 = (None, a)"
  from LoadData_sections(1)[OF this] p show "Auth a = None" by simp
next
  assume "stat t (Join rootDir [NameDataSources]) = Inr (Some Dir)
        \<and> children t (Join rootDir [NameDataSources]) = []"
  then show p: "parseDataSources c t rootDir = Inr []"
    by (simp add: parseDataSources_def dw_walk_def)
  fix a0 a assume "LoadData pk c t rootDir a0 = (None, a)"
  from LoadData_sections(4)[OF this] p show "DataSources a = []" by simp
qed

theorem absence_detection_witness:
  "stat sampleTreeEmpty (Join [''app''] [NameAuth]) = Inr None
   \<and> stat sampleTreeEmpty (Join [''app''] [NameDataSources]) = Inr (Some Dir)
   \<and> children sampleTreeEmpty (Join [''app''] [NameDataSources]) = []
   \<and> LoadData samplePackage sampleCodec sampleTreeEmpty [''app''] sampleApp = (None, sampleApp)
   \<and> parseAuth sampleCodec sampleTreeEmpty [''app''] = Inr None
   \<and> parseDataSources sampleCodec sampleTreeEmpty [''app''] = Inr []
   \<and> Auth sampleApp = None \<and> DataSources sampleApp = []"
proof -
  have 1: "stat sampleTreeEmpty (Join [''app''] [NameAuth]) = Inr None" by code_simp
  have 2: "stat sampleTreeEmpty (Join [''app''] [NameDataSources]) = Inr (Some Dir)" by code_simp
  have 3: "children sampleTreeEmpty (Join [''app''] [NameDataSources]) = []" by code_simp
  have 4: "LoadData samplePackage sampleCodec sampleTreeEmpty [''app''] sampleApp = (None, sampleApp)"
    by code_simp
  from absence_detection[of sampleTreeEmpty "[''app'']" sampleCodec samplePackage] 1 2 3 4
  show ?thesis by blast
qed

text \<open>
  C8. A collection directory without \<open>rules.json\<close> leaves the rule sequence as it is and
  raises no error; hence visiting any sequence of collection directories gives what
  visiting only those that hold a \<open>rules.json\<close> gives.
\<close>

theorem directory_skip_rule:
  "(stat t (Join collPath [FileRules]) = Inr None \<longrightarrow> collVisitor c t collPath rules = Inr rules)
   \<and> visitAll (collVisitor c t) ps rules =
       visitAll (collVisitor c t) (filter (\<lambda>p. stat t (Join p [FileRules]) \<noteq> Inr None) ps) rules"
proof
  show "stat t (Join collPath [FileRules]) = Inr None \<longrightarrow> collVisitor c t collPath rules = Inr rules"
    by (simp add: collVisitor_def)
  show "visitAll (collVisitor c t) ps rules =
       visitAll (collVisitor c t) (filter (\<lambda>p. stat t (Join p [FileRules]) \<noteq> Inr None) ps) rules"
    by (rule visitAll_filter) (simp add: collVisitor_def)
qed

theorem directory_skip_rule_witness:
  "stat sampleTreeRules (Join [''app'', ''data_sources'', ''ds1'', ''db1'', ''coll2''] [FileRules]) = Inr None
   \<and> collVisitor sampleCodec sampleTreeRules [''app'', ''data_sources'', ''ds1'', ''db1'', ''coll2'']
        [sampleRule] = Inr [sampleRule]
   \<and> children sampleTreeRules [''app'', ''data_sources'', ''ds1'', ''db1''] = [''coll1'', ''coll2'']
   \<and> parseDataSources sampleCodec sampleTreeRules [''app''] =
       Inr [\<lparr>DataSourceStructure.Config = Some sampleConfig,
             Rules = [sampleRule @ [(''schema'', JObj sampleSchema)]]\<rparr>]"
proof -
  have 1: "stat sampleTreeRules (Join [''app'', ''data_sources'', ''ds1'', ''db1'', ''coll2''] [FileRules])
      = Inr None" by code_simp
  have 2: "children sampleTreeRules [''app'', ''data_sources'', ''ds1'', ''db1''] = [''coll1'', ''coll2'']"
    by code_simp
  have 3: "parseDataSources sampleCodec sampleTreeRules [''app''] =
       Inr [\<lparr>DataSourceStructure.Config = Some sampleConfig,
             Rules = [sampleRule @ [(''schema'', JObj sampleSchema)]]\<rparr>]"
    by code_simp
  from directory_skip_rule[of sampleTreeRules "[''app'', ''data_sources'', ''ds1'', ''db1'', ''coll2'']"
      sampleCodec "[sampleRule]"] 1 2 3
  show ?thesis by blast
qed

section \<open>Properties of the file system calls\<close>

lemma mkdirFrom_only_adds_dirs:
  "mkdirFrom p cs t = (r, t') \<Longrightarrow>
   fmlookup t' q = fmlookup t q \<or> (fmlookup t q = None \<and> fmlookup t' q = Some Dir)"
proof (induction cs arbitrary: p t)
  case Nil
  then show ?case by (auto simp: lookup_def split: option.splits node.splits if_splits)
next
  case (Cons c cs)
  show ?case
  proof (cases "lookup t p")
    case None
    with Cons.prems have "mkdirFrom (p @ [c]) cs (fmupd p Dir t) = (r, t')" by simp
    from Cons.IH[OF this] None show ?thesis by (auto simp: lookup_def split: if_splits)
  next
    case (Some n)
    with Cons show ?thesis by (cases n) (auto simp: lookup_def)
  qed
qed

lemma mkdirFrom_success:
  "mkdirFrom p cs t = (None, t') \<Longrightarrow> k \<le> length cs \<Longrightarrow> fmlookup t' (p @ take k cs) = Some Dir"
proof (induction cs arbitrary: p t k)
  case Nil
  then show ?case by (auto simp: lookup_def split: option.splits node.splits)
next
  case (Cons c cs)
  from Cons.prems(1) obtain t1 where t1: "mkdirFrom (p @ [c]) cs t1 = (None, t')"
    and p1: "fmlookup t1 p = Some Dir"
    by (cases "lookup t p"; cases "the (lookup t p)") (auto simp: lookup_def)
  show ?case
  proof (cases k)
    case 0
    from mkdirFrom_only_adds_dirs[OF t1, of p] p1 show ?thesis using 0 by auto
  next
    case (Suc j)
    with Cons.prems(2) have "j \<le> length cs" by simp
    from Cons.IH[OF t1 this] show ?thesis using Suc by simp
  qed
qed

lemma mkdirFrom_settled:
  "(\<And>k. k \<le> length cs \<Longrightarrow> fmlookup t (p @ take k cs) = Some Dir) \<Longrightarrow> mkdirFrom p cs t = (None, t)"
proof (induction cs arbitrary: p)
  case Nil
  from Nil[of 0] show ?case by (simp add: lookup_def)
next
  case (Cons c cs)
  from Cons.prems[of 0] have p: "lookup t p = Some Dir" by (simp add: lookup_def)
  have "mkdirFrom (p @ [c]) cs t = (None, t)"
  proof (rule Cons.IH)
    fix k assume "k \<le> length cs"
    then have "Suc k \<le> length (c # cs)" by simp
    from Cons.prems[OF this] show "fmlookup t ((p @ [c]) @ take k cs) = Some Dir" by simp
  qed
  with p show ?case by simp
qed

lemma prefix_take_conv: "prefix q p \<longleftrightarrow> (\<exists>k\<le>length p. q = take k p)"
  by (metis prefix_def append_take_drop_id length_take min.cobounded1 take_is_prefix append_eq_conv_conj)

lemma MkdirAll_only_adds_dirs:
  "MkdirAll p t = (r, t') \<Longrightarrow>
   fmlookup t' q = fmlookup t q \<or> (fmlookup t q = None \<and> fmlookup t' q = Some Dir)"
  unfolding MkdirAll_def by (rule mkdirFrom_only_adds_dirs)

lemma MkdirAll_success:
  "MkdirAll p t = (None, t') \<Longrightarrow> prefix q p \<Longrightarrow> fmlookup t' q = Some Dir"
  unfolding MkdirAll_def prefix_take_conv using mkdirFrom_success[of "[]" p t t'] by auto

lemma MkdirAll_settled:
  "(\<And>q. prefix q p \<Longrightarrow> fmlookup t q = Some Dir) \<Longrightarrow> MkdirAll p t = (None, t)"
  unfolding MkdirAll_def by (rule mkdirFrom_settled) (simp add: take_is_prefix)

lemma strict_prefix_butlast: "p \<noteq> [] \<Longrightarrow> strict_prefix q p \<longleftrightarrow> prefix q (butlast p)"
  by (metis append_butlast_last_id prefix_snoc strict_prefix_def not_Cons_self2
      prefix_order.dual_order.strict_implies_not_eq same_prefix_nil)

lemma WriteFile_success:
  assumes "WriteFile p d t = (None, t')"
  shows "p \<noteq> []" and "fmlookup t' p = Some (File d)" and "fmlookup t p \<noteq> Some Dir"
    and "strict_prefix q p \<Longrightarrow> fmlookup t' q = Some Dir"
    and "q \<noteq> p \<Longrightarrow> fmlookup t' q = fmlookup t q \<or> (fmlookup t q = None \<and> fmlookup t' q = Some Dir)"
proof -
  from assms obtain t1 where m: "MkdirAll (butlast p) t = (None, t1)"
    and nd: "lookup t1 p \<noteq> Some Dir" and t': "t' = fmupd p (File d) t1"
    unfolding WriteFile_def
    by (cases "MkdirAll (butlast p) t"; cases "fst (MkdirAll (butlast p) t)")
       (auto split: option.splits node.splits)
  show ne: "p \<noteq> []"
  proof
    assume "p = []"
    with MkdirAll_success[OF m, of "[]"] nd show False by (simp add: lookup_def)
  qed
  show "fmlookup t' p = Some (File d)" using t' by simp
  show "fmlookup t p \<noteq> Some Dir"
    using MkdirAll_only_adds_dirs[OF m, of p] nd by (auto simp: lookup_def)
  show "fmlookup t' q = Some Dir" if "strict_prefix q p"
  proof -
    from that ne have "prefix q (butlast p)" by (simp add: strict_prefix_butlast)
    from MkdirAll_success[OF m this] that show ?thesis using t' by auto
  qed
  show "fmlookup t' q = fmlookup t q \<or> (fmlookup t q = None \<and> fmlookup t' q = Some Dir)" if "q \<noteq> p"
    using MkdirAll_only_adds_dirs[OF m, of q] that t' by auto
qed

lemma WriteFile_error:
  assumes "WriteFile p d t = (Some e, t')"
  shows "fmlookup t' q = fmlookup t q \<or> (fmlookup t q = None \<and> fmlookup t' q = Some Dir)"
proof -
  obtain r t1 where m: "MkdirAll (butlast p) t = (r, t1)" by (cases "MkdirAll (butlast p) t")
  with assms have "t' = t1" unfolding WriteFile_def
    by (auto split: option.splits node.splits)
  with MkdirAll_only_adds_dirs[OF m, of q] show ?thesis by simp
qed

lemma WriteFile_settled:
  assumes "p \<noteq> []" and "\<And>q. strict_prefix q p \<Longrightarrow> fmlookup t q = Some Dir"
    and "fmlookup t p \<noteq> Some Dir"
  shows "WriteFile p d t = (None, fmupd p (File d) t)"
proof -
  have "MkdirAll (butlast p) t = (None, t)"
    by (rule MkdirAll_settled) (simp add: assms(1,2) strict_prefix_butlast)
  with assms(3) show ?thesis unfolding WriteFile_def
    by (auto simp: lookup_def split: option.splits node.splits)
qed

lemma andThen_None:
  "andThen f g t = (None, t') \<longleftrightarrow> (\<exists>t1. f t = (None, t1) \<and> g t1 = (None, t'))"
  unfolding andThen_def by (cases "f t"; cases "fst (f t)") auto

lemma andThen_Some_first: "f t = (Some e, t1) \<Longrightarrow> andThen f g t = (Some e, t1)"
  by (simp add: andThen_def)

lemma andThen_after: "f t = (None, t1) \<Longrightarrow> andThen f g t = g t1"
  by (simp add: andThen_def)

lemma Join_names:
  "Join p [NameAuth] = p @ [''auth'']"
  "Join p [NameFunctions] = p @ [''functions'']"
  "Join p [NameDataSources] = p @ [''data_sources'']"
  "Join p [NameHTTPEndpoints] = p @ [''http_endpoints'']"
  "Join p [NameSync, FileConfig] = p @ [''sync'', ''config.json'']"
  "Join p [FileConfig] = p @ [''config.json'']"
  "Join p [FileRules] = p @ [''rules.json'']"
  "Join p [FileSchema] = p @ [''schema.json'']"
  "Join p [FileSource] = p @ [''source.js'']"
  "Join p [FileProviders] = p @ [''providers.json'']"
  "Join p [FileCustomUserData] = p @ [''custom_user_data.json'']"
  by (simp_all add: Join_def NameAuth_def NameFunctions_def NameDataSources_def
      NameHTTPEndpoints_def NameSync_def FileConfig_def FileRules_def FileSchema_def
      FileSource_def FileProviders_def FileCustomUserData_def)

section \<open>Properties of writing\<close>

lemma writeDataSourcesLoop_append:
  "writeDataSourcesLoop c dir (xs @ ys) t =
   andThen (writeDataSourcesLoop c dir xs) (writeDataSourcesLoop c dir ys) t"
  by (induction xs arbitrary: t) (auto simp: andThen_def split: prod.splits option.splits)

lemma writeDataSource_no_name:
  "asString (index (case DataSourceStructure.Config ds of None \<Rightarrow> [] | Some d \<Rightarrow> d) ''name'') = None
   \<Longrightarrow> writeDataSource c dir ds t = (Some (ErrMsg ''error writing datasources''), t)"
  by (simp add: writeDataSource_def)

text \<open>
  C4, as amended. When the data sources before the first one whose Config has no string
  \<open>name\<close> are written without error, the writer returns the error "error writing
  datasources" and leaves the tree as writing those preceding data sources left it:
  nothing is created for the nameless data source or for any after it. When it is the
  first one, the tree holds the same files as before the call.
\<close>

theorem missing_name_rejection:
  assumes "asString (index (case DataSourceStructure.Config bad of None \<Rightarrow> [] | Some d \<Rightarrow> d) ''name'') = None"
    and "writeDataSources c rootDir pre t = (None, t1)"
  shows "writeDataSources c rootDir (pre @ bad # post) t = (Some (ErrMsg ''error writing datasources''), t1)
    \<and> (pre = [] \<longrightarrow> (\<forall>q d. fmlookup t1 q = Some (File d) \<longleftrightarrow> fmlookup t q = Some (File d)))"
proof
  from assms(2) obtain t0 where m: "MkdirAll (Join rootDir [NameDataSources]) t = (None, t0)"
    and l: "writeDataSourcesLoop c (Join rootDir [NameDataSources]) pre t0 = (None, t1)"
    by (auto simp: writeDataSources_def Let_def andThen_None)
  have "writeDataSourcesLoop c (Join rootDir [NameDataSources]) (pre @ bad # post) t0 =
      (Some (ErrMsg ''error writing datasources''), t1)"
    using l writeDataSource_no_name[OF assms(1)]
    by (simp add: writeDataSourcesLoop_append andThen_def)
  with m show "writeDataSources c rootDir (pre @ bad # post) t =
      (Some (ErrMsg ''error writing datasources''), t1)"
    by (simp add: writeDataSources_def Let_def andThen_def)
  show "pre = [] \<longrightarrow> (\<forall>q d. fmlookup t1 q = Some (File d) \<longleftrightarrow> fmlookup t q = Some (File d))"
  proof (intro impI allI)
    fix q d assume "pre = []"
    with l have "t1 = t0" by simp
    with MkdirAll_only_adds_dirs[OF m, of q]
    show "fmlookup t1 q = Some (File d) \<longleftrightarrow> fmlookup t q = Some (File d)" by auto
  qed
qed

theorem missing_name_rejection_witness:
  "asString (index (case DataSourceStructure.Config sampleNameless of None \<Rightarrow> [] | Some d \<Rightarrow> d) ''name'') = None
   \<and> writeDataSources sampleCodec [''app''] [] (fmupd [] Dir fmempty) = (None, sampleTreeEmpty)
   \<and> writeDataSources sampleCodec [''app''] [sampleNameless] (fmupd [] Dir fmempty) =
       (Some (ErrMsg ''error writing datasources''), sampleTreeEmpty)
   \<and> (\<forall>q d. fmlookup sampleTreeEmpty q \<noteq> Some (File d))"
proof -
  have 1: "asString (index (case DataSourceStructure.Config sampleNameless of None \<Rightarrow> [] | Some d \<Rightarrow> d) ''name'') = None"
    by code_simp
  have 2: "writeDataSources sampleCodec [''app''] [] (fmupd [] Dir fmempty) = (None, sampleTreeEmpty)"
    by code_simp
  from missing_name_rejection[OF 1 2, of "[]"] 1 2 show ?thesis by simp
qed

text \<open>
  The claim as stated fails when a data source with a name precedes the nameless one:
  its \<open>config.json\<close> is already written when the error is returned.
\<close>

theorem missing_name_rejection_counterexample:
  "fst (writeDataSources sampleCodec [''app'']
          [\<lparr>DataSourceStructure.Config = Some sampleConfig, Rules = []\<rparr>, sampleNameless]
          (fmupd [] Dir fmempty)) = Some (ErrMsg ''error writing datasources'')
   \<and> fmlookup (snd (writeDataSources sampleCodec [''app'']
          [\<lparr>DataSourceStructure.Config = Some sampleConfig, Rules = []\<rparr>, sampleNameless]
          (fmupd [] Dir fmempty)))
        [''app'', ''data_sources'', ''ds1'', ''config.json''] = Some (File ''{name:ds1,type:mongodb-atlas}'')"
  by code_simp




text \<open>
  C2, as amended. Before any path is derived, the data-source writer checks that the
  Config holds a string \<open>name\<close>, the endpoint writer that the Config holds a string
  \<open>name\<close>, and the webhook writer that the webhook holds a string \<open>source\<close> and a
  string \<open>name\<close>; when the check fails the tree is left as it is and the error is the
  writer's fixed message, "error writing datasources" or "error writing http endpoints",
  which names the section and not the field.
\<close>

theorem naming_fields_checked:
  "(asString (index (case DataSourceStructure.Config ds of None \<Rightarrow> [] | Some d \<Rightarrow> d) ''name'') = None
      \<longrightarrow> writeDataSource c dir ds t = (Some (ErrMsg ''error writing datasources''), t))
   \<and> (asString (index (case HTTPEndpointStructure.Config ep of None \<Rightarrow> [] | Some d \<Rightarrow> d) ''name'') = None
      \<longrightarrow> writeHTTPEndpoint c dir ep t = (Some (ErrMsg ''error writing http endpoints''), t))
   \<and> (asString (index webhook NameSource) = None \<or> asString (index webhook ''name'') = None
      \<longrightarrow> writeWebhook c dir n webhook t = (Some (ErrMsg ''error writing http endpoints''), t))"
  by (auto simp: writeDataSource_def writeHTTPEndpoint_def writeWebhook_def split: option.splits)

theorem naming_fields_checked_witness:
  "asString (index (case DataSourceStructure.Config sampleNameless of None \<Rightarrow> [] | Some d \<Rightarrow> d) ''name'') = None
   \<and> writeDataSource sampleCodec [''app'', ''x''] sampleNameless sampleTreeEmpty
        = (Some (ErrMsg ''error writing datasources''), sampleTreeEmpty)
   \<and> asString (index (case HTTPEndpointStructure.Config
          \<lparr>HTTPEndpointStructure.Config = Some [(''name'', JNum 7)], IncomingWebhooks = []\<rparr>
          of None \<Rightarrow> [] | Some d \<Rightarrow> d) ''name'') = None
   \<and> writeHTTPEndpoint sampleCodec [''app'', ''x'']
        \<lparr>HTTPEndpointStructure.Config = Some [(''name'', JNum 7)], IncomingWebhooks = []\<rparr> sampleTreeEmpty
        = (Some (ErrMsg ''error writing http endpoints''), sampleTreeEmpty)
   \<and> asString (index [(''source'', JStr ''exports = 1'')] ''name'') = None
   \<and> writeWebhook sampleCodec [''app'', ''x''] ''ep'' [(''source'', JStr ''exports = 1'')]
        sampleTreeEmpty = (Some (ErrMsg ''error writing http endpoints''), sampleTreeEmpty)"
proof -
  have 1: "asString (index (case DataSourceStructure.Config sampleNameless of None \<Rightarrow> [] | Some d \<Rightarrow> d) ''name'') = None"
    by code_simp
  have 2: "asString (index (case HTTPEndpointStructure.Config
          \<lparr>HTTPEndpointStructure.Config = Some [(''name'', JNum 7)], IncomingWebhooks = []\<rparr>
          of None \<Rightarrow> [] | Some d \<Rightarrow> d) ''name'') = None"
    by code_simp
  have 3: "asString (index [(''source'', JStr ''exports = 1'')] ''name'') = None" by code_simp
  from naming_fields_checked[of sampleNameless sampleCodec "[''app'', ''x'']" sampleTreeEmpty
      "\<lparr>HTTPEndpointStructure.Config = Some [(''name'', JNum 7)], IncomingWebhooks = []\<rparr>"
      "[(''source'', JStr ''exports = 1'')]" "''ep''"] 1 2 3
  show ?thesis by blast
qed

text \<open>
  The claim as stated fails on the error: a webhook without \<open>source\<close> and a webhook
  without \<open>name\<close> are rejected with one and the same error value, so the error does not
  name the field.
\<close>

theorem naming_fields_checked_counterexample:
  "fst (writeWebhook sampleCodec [''app'', ''http_endpoints''] ''ep''
          [(''source'', JStr ''exports = 1'')] sampleTreeEmpty)
     = Some (ErrMsg ''error writing http endpoints'')
   \<and> fst (writeWebhook sampleCodec [''app'', ''http_endpoints''] ''ep''
          [(''name'', JStr ''hook'')] sampleTreeEmpty)
     = Some (ErrMsg ''error writing http endpoints'')"
  by code_simp

text \<open>
  The rule writer makes no such check on \<open>database\<close> and \<open>collection\<close>: a rule without
  \<open>database\<close> is written, under the directory name that \<open>fmt\<close> prints for nil.
\<close>

lemma rule_database_unchecked:
  "fst (writeRule sampleCodec [''app'', ''data_sources''] ''ds1'' [(''collection'', JStr ''coll1'')]
          sampleTreeEmpty) = None
   \<and> fmlookup (snd (writeRule sampleCodec [''app'', ''data_sources''] ''ds1''
          [(''collection'', JStr ''coll1'')] sampleTreeEmpty))
        [''app'', ''data_sources'', ''ds1'', ''%!s(<nil>)'', ''coll1'', ''rules.json'']
       = Some (File ''{collection:coll1}'')"
  by code_simp





lemma stat_Inr:
  "stat t p = Inr x \<longleftrightarrow>
   (\<forall>q d. strict_prefix q p \<longrightarrow> fmlookup t q \<noteq> Some (File d)) \<and> x = fmlookup t p"
proof -
  let ?P = "\<lambda>q. q \<noteq> p \<and> (case lookup t q of Some (File _) \<Rightarrow> True | _ \<Rightarrow> False)"
  have e: "filter ?P (prefixes p) = [] \<longleftrightarrow> (\<forall>q d. strict_prefix q p \<longrightarrow> fmlookup t q \<noteq> Some (File d))"
  proof
    assume a: "filter ?P (prefixes p) = []"
    show "\<forall>q d. strict_prefix q p \<longrightarrow> fmlookup t q \<noteq> Some (File d)"
    proof (intro allI impI notI)
      fix q d assume "strict_prefix q p" and "fmlookup t q = Some (File d)"
      then have "q \<in> set (prefixes p)" and "?P q" by (auto simp: lookup_def strict_prefix_def)
      with a show False by (auto simp: filter_empty_conv)
    qed
  next
    assume a: "\<forall>q d. strict_prefix q p \<longrightarrow> fmlookup t q \<noteq> Some (File d)"
    have "\<not> ?P q" if "q \<in> set (prefixes p)" for q
    proof (cases "q = p")
      case False
      with that have "strict_prefix q p" by (simp add: strict_prefix_def)
      with a have "\<And>d. lookup t q \<noteq> Some (File d)" by (simp add: lookup_def)
      then show ?thesis by (auto split: option.splits node.splits)
    qed simp
    then show "filter ?P (prefixes p) = []" by (simp add: filter_empty_conv)
  qed
  show ?thesis
  proof (cases "filter ?P (prefixes p)")
    case Nil
    with e show ?thesis unfolding stat_def by (auto simp: lookup_def)
  next
    case (Cons a as)
    with e show ?thesis unfolding stat_def by auto
  qed
qed
lemma cleanOnto_append: "cleanOnto p (xs @ ys) = cleanOnto (cleanOnto p xs) ys"
  by (induction p xs rule: cleanOnto.induct) auto
lemma Join_Join: "Join (Join p xs) ys = Join p (xs @ ys)"
  by (simp add: Join_def cleanOnto_append)



section \<open>Replaying a successful write\<close>

lemma runOps_append: "runOps (xs @ ys) t = andThen (runOps xs) (runOps ys) t"
  by (induction xs arbitrary: t) (auto simp: andThen_def split: prod.splits option.splits)

lemma runOps_Fail: "runOps (Fail e # xs) t = (Some e, t)"
  by (simp add: andThen_def)

lemma runOps_None_Cons:
  "runOps (x # xs) t = (None, t') \<longleftrightarrow> (\<exists>t1. runOp x t = (None, t1) \<and> runOps xs t1 = (None, t'))"
  by (simp add: andThen_None)

lemma shape_le_refl: "shape_le t t"
  by (simp add: shape_le_def)

lemma shape_le_trans: "shape_le a b \<Longrightarrow> shape_le b c \<Longrightarrow> shape_le a c"
  unfolding shape_le_def by blast

lemma settled_mono: "settled t x \<Longrightarrow> shape_le t t' \<Longrightarrow> settled t' x"
  by (cases x) (auto simp: shape_le_def)

lemma runOp_shape: "runOp x t = (None, t') \<Longrightarrow> shape_le t t'"
proof (cases x)
  case (Mk p)
  assume "runOp x t = (None, t')"
  with Mk have "MkdirAll p t = (None, t')" by simp
  from MkdirAll_only_adds_dirs[OF this] show ?thesis unfolding shape_le_def by (metis option.distinct(1))
next
  case (Wr p d)
  assume "runOp x t = (None, t')"
  with Wr have w: "WriteFile p d t = (None, t')" by simp
  show ?thesis unfolding shape_le_def
  proof (intro allI conjI impI)
    fix q assume "fmlookup t q = Some Dir"
    with WriteFile_success(3,5)[OF w] show "fmlookup t' q = Some Dir" by (metis option.distinct(1))
  next
    fix q d' assume "fmlookup t q = Some (File d')"
    with WriteFile_success(2,5)[OF w] show "\<exists>d'. fmlookup t' q = Some (File d')"
      by (metis option.distinct(1))
  qed
qed simp

lemma runOp_settles: "runOp x t = (None, t') \<Longrightarrow> settled t' x"
proof (cases x)
  case (Mk p)
  assume "runOp x t = (None, t')"
  with Mk MkdirAll_success[of p t t'] show ?thesis by simp
next
  case (Wr p d)
  assume "runOp x t = (None, t')"
  with Wr have w: "WriteFile p d t = (None, t')" by simp
  from WriteFile_success(1,2,4)[OF w] Wr show ?thesis by auto
qed simp

lemma runOps_shape: "runOps xs t = (None, t') \<Longrightarrow> shape_le t t'"
proof (induction xs arbitrary: t)
  case (Cons x xs)
  then obtain t1 where "runOp x t = (None, t1)" "runOps xs t1 = (None, t')"
    by (auto simp: andThen_None)
  with Cons.IH[of t1] runOp_shape[of x t t1] show ?case by (blast intro: shape_le_trans)
qed (simp add: shape_le_refl)

lemma runOps_settles: "runOps xs t = (None, t') \<Longrightarrow> x \<in> set xs \<Longrightarrow> settled t' x"
proof (induction xs arbitrary: t)
  case (Cons y ys)
  then obtain t1 where 1: "runOp y t = (None, t1)" and 2: "runOps ys t1 = (None, t')"
    by (auto simp: andThen_None)
  show ?case
  proof (cases "x = y")
    case True
    with runOp_settles[OF 1] runOps_shape[OF 2] show ?thesis by (blast intro: settled_mono)
  next
    case False
    with Cons.prems(2) have "x \<in> set ys" by simp
    from Cons.IH[OF 2 this] show ?thesis .
  qed
qed simp

lemma runOp_keeps_file:
  assumes "runOp x t = (None, t')" and "fmlookup t q = Some (File d)"
    and "\<And>p d'. x = Wr p d' \<Longrightarrow> p \<noteq> q"
  shows "fmlookup t' q = Some (File d)"
proof (cases x)
  case (Mk p)
  with assms(1) have "MkdirAll p t = (None, t')" by simp
  from MkdirAll_only_adds_dirs[OF this, of q] assms(2) show ?thesis by simp
next
  case (Wr p d')
  with assms(1) have w: "WriteFile p d' t = (None, t')" by simp
  from assms(3)[OF Wr] have "q \<noteq> p" by simp
  from WriteFile_success(5)[OF w this] assms(2) show ?thesis by simp
next
  case (Fail e)
  with assms(1) show ?thesis by simp
qed

lemma runOps_keeps_file:
  "runOps xs t = (None, t') \<Longrightarrow> fmlookup t q = Some (File d) \<Longrightarrow> lastW xs q = None
   \<Longrightarrow> fmlookup t' q = Some (File d)"
proof (induction xs arbitrary: t)
  case (Cons x xs)
  from Cons.prems(1) obtain t1 where 1: "runOp x t = (None, t1)" and 2: "runOps xs t1 = (None, t')"
    by (auto simp: andThen_None)
  from Cons.prems(3) have l: "lastW xs q = None" and nx: "\<And>p d'. x = Wr p d' \<Longrightarrow> p \<noteq> q"
    by (auto split: option.splits fsop.splits if_splits)
  from runOp_keeps_file[OF 1 Cons.prems(2) nx] have "fmlookup t1 q = Some (File d)" .
  from Cons.IH[OF 2 this l] show ?case .
qed simp

lemma runOps_last_written:
  "runOps xs t = (None, t') \<Longrightarrow> lastW xs q = Some d \<Longrightarrow> fmlookup t' q = Some (File d)"
proof (induction xs arbitrary: t)
  case (Cons x xs)
  from Cons.prems(1) obtain t1 where 1: "runOp x t = (None, t1)" and 2: "runOps xs t1 = (None, t')"
    by (auto simp: andThen_None)
  show ?case
  proof (cases "lastW xs q")
    case (Some d')
    with Cons.prems(2) have "d' = d" by simp
    with Cons.IH[OF 2] Some show ?thesis by simp
  next
    case None
    with Cons.prems(2) have x: "x = Wr q d" by (auto split: fsop.splits if_splits)
    with 1 have "WriteFile q d t = (None, t1)" by simp
    from WriteFile_success(2)[OF this] have "fmlookup t1 q = Some (File d)" .
    from runOps_keeps_file[OF 2 this None] show ?thesis .
  qed
qed simp

lemma runOp_settled:
  assumes "settled t x"
  shows "\<exists>t1. runOp x t = (None, t1) \<and> shape_le t1 t
     \<and> (\<forall>q. fmlookup t1 q = (case x of Wr p d \<Rightarrow> if p = q then Some (File d) else fmlookup t q
                               | _ \<Rightarrow> fmlookup t q))"
proof (cases x)
  case (Mk p)
  with assms have "MkdirAll p t = (None, t)" by (auto intro: MkdirAll_settled)
  with Mk show ?thesis by (simp add: shape_le_refl)
next
  case (Wr p d)
  with assms obtain d0 where s: "p \<noteq> []" "\<And>q. strict_prefix q p \<Longrightarrow> fmlookup t q = Some Dir"
    "fmlookup t p = Some (File d0)" by auto
  then have "WriteFile p d t = (None, fmupd p (File d) t)"
    by (intro WriteFile_settled) auto
  moreover have "shape_le (fmupd p (File d) t) t" using s(3) by (auto simp: shape_le_def)
  ultimately show ?thesis using Wr by auto
next
  case (Fail e)
  with assms show ?thesis by simp
qed

lemma runOps_settled:
  "(\<And>x. x \<in> set xs \<Longrightarrow> settled t x) \<Longrightarrow>
   \<exists>t'. runOps xs t = (None, t')
     \<and> (\<forall>q. fmlookup t' q = (case lastW xs q of Some d \<Rightarrow> Some (File d) | None \<Rightarrow> fmlookup t q))"
proof (induction xs arbitrary: t)
  case Nil
  show ?case by simp
next
  case (Cons x xs)
  from runOp_settled[OF Cons.prems[of x]] obtain t1 where 1: "runOp x t = (None, t1)"
    and sh: "shape_le t1 t" "shape_le t t1"
    and l1: "\<And>q. fmlookup t1 q = (case x of Wr p d \<Rightarrow> if p = q then Some (File d) else fmlookup t q
                               | _ \<Rightarrow> fmlookup t q)"
    using runOp_shape by auto
  have "\<And>y. y \<in> set xs \<Longrightarrow> settled t1 y"
    using Cons.prems sh(2) by (auto intro: settled_mono)
  from Cons.IH[OF this] obtain t' where 2: "runOps xs t1 = (None, t')"
    and l2: "\<And>q. fmlookup t' q = (case lastW xs q of Some d \<Rightarrow> Some (File d) | None \<Rightarrow> fmlookup t1 q)"
    by blast
  from 1 2 have "runOps (x # xs) t = (None, t')" by (simp add: andThen_def)
  moreover have "fmlookup t' q = (case lastW (x # xs) q of Some d \<Rightarrow> Some (File d) | None \<Rightarrow> fmlookup t q)" for q
    unfolding l2[of q] l1[of q] by (auto split: option.splits fsop.splits)
  ultimately show ?case by blast
qed

text \<open>Replaying a sequence of calls that succeeded, on the tree it left, changes nothing.\<close>

lemma runOps_replay:
  assumes "runOps xs t = (None, t')"
  shows "runOps xs t' = (None, t')"
proof -
  from runOps_settled[of xs t'] runOps_settles[OF assms]
  obtain t'' where r: "runOps xs t' = (None, t'')"
    and l: "\<And>q. fmlookup t'' q = (case lastW xs q of Some d \<Rightarrow> Some (File d) | None \<Rightarrow> fmlookup t' q)"
    by blast
  have "fmlookup t'' q = fmlookup t' q" for q
    using l[of q] runOps_last_written[OF assms, of q] by (cases "lastW xs q") auto
  then have "t'' = t'" by (rule fmap_ext)
  with r show ?thesis by simp
qed

section \<open>The endpoint writer and its second call\<close>

lemma inst_append: "map (inst r) (xs @ ys) = map (inst r) xs @ map (inst r) ys"
  by simp

lemma Join2: "Join (Join r [a]) bs = Join r (a # bs)"
  using Join_Join[of r "[a]" bs] by simp

lemma writeJSON_ops: "writeJSON c v (Join r cs) t = runOps (map (inst r) (sopsJSON c v cs)) t"
  by (auto simp: writeJSON_def sopsJSON_def andThen_def split: sum.splits prod.splits option.splits)

lemma writeWebhook_ops:
  "writeWebhook c (Join r [NameHTTPEndpoints]) n w t = runOps (map (inst r) (sopsWebhook c n w)) t"
  by (auto simp: writeWebhook_def sopsWebhook_def Let_def andThen_def Join_Join
      split: sum.splits prod.splits option.splits)

lemma writeWebhooks_ops:
  "writeWebhooks c (Join r [NameHTTPEndpoints]) n ws t
   = runOps (map (inst r) (concat (map (sopsWebhook c n) ws))) t"
proof (induction ws arbitrary: t)
  case (Cons w ws)
  show ?case
    by (simp add: runOps_append andThen_def writeWebhook_ops Cons.IH split: prod.splits option.splits)
qed simp

lemma writeHTTPEndpoint_ops:
  "writeHTTPEndpoint c (Join r [NameHTTPEndpoints]) e t = runOps (map (inst r) (sopsHTTPEndpoint c e)) t"
  by (auto simp: writeHTTPEndpoint_def sopsHTTPEndpoint_def runOps_append andThen_def Join2
      writeJSON_ops writeWebhooks_ops split: option.splits prod.splits)

lemma writeHTTPEndpointsLoop_ops:
  "writeHTTPEndpointsLoop c (Join r [NameHTTPEndpoints]) es t
   = runOps (map (inst r) (concat (map (sopsHTTPEndpoint c) es))) t"
proof (induction es arbitrary: t)
  case (Cons e es)
  show ?case
    by (simp add: runOps_append andThen_def writeHTTPEndpoint_ops Cons.IH split: prod.splits option.splits)
qed simp

lemma writeHTTPEndpoints_ops:
  "writeHTTPEndpoints c rootDir es t = runOps (map (inst rootDir) (sopsHTTPEndpoints c es)) t"
  by (simp add: writeHTTPEndpoints_def sopsHTTPEndpoints_def Let_def andThen_def
      writeHTTPEndpointsLoop_ops split: prod.splits option.splits)

lemma writeHTTPEndpoints_replay:
  "writeHTTPEndpoints c rootDir es t = (None, t') \<Longrightarrow> writeHTTPEndpoints c rootDir es t' = (None, t')"
  unfolding writeHTTPEndpoints_ops by (rule runOps_replay)

lemma andThen_tail_iff:
  "(\<And>u u'. k1 u = (None, u') \<longleftrightarrow> k2 u = (None, u'))
   \<Longrightarrow> andThen f k1 t = (None, t') \<longleftrightarrow> andThen f k2 t = (None, t')"
  by (simp add: andThen_None)

lemma twice_iff_once:
  assumes "\<And>u u'. g u = (None, u') \<Longrightarrow> g u' = (None, u')"
  shows "andThen g (andThen g h) t = (None, t') \<longleftrightarrow> andThen g h t = (None, t')"
proof
  assume "andThen g (andThen g h) t = (None, t')"
  then obtain t1 t2 where 1: "g t = (None, t1)" and 2: "g t1 = (None, t2)" and 3: "h t2 = (None, t')"
    by (auto simp: andThen_None)
  from assms[OF 1] 2 have "t2 = t1" by simp
  with 1 3 show "andThen g h t = (None, t')" by (auto simp: andThen_None)
next
  assume "andThen g h t = (None, t')"
  then obtain t1 where 1: "g t = (None, t1)" and 3: "h t1 = (None, t')"
    by (auto simp: andThen_None)
  from 1 assms[OF 1] 3 show "andThen g (andThen g h) t = (None, t')"
    by (auto simp: andThen_None)
qed

text \<open>
  C10. \<open>WriteData\<close> calls the endpoint writer twice in a row. It succeeds with a tree if
  and only if \<open>WriteData\<close> with a single call of the endpoint writer succeeds with that
  same tree.
\<close>

theorem second_endpoint_write_redundant:
  "WriteData pk c rootDir a t = (None, t') \<longleftrightarrow> WriteDataOnce pk c rootDir a t = (None, t')"
  unfolding WriteData_def WriteDataOnce_def
  by (intro andThen_tail_iff twice_iff_once writeHTTPEndpoints_replay)

theorem second_endpoint_write_redundant_witness:
  "WriteData samplePackage sampleCodec [''app''] (sampleApp\<lparr>HTTPEndpoints := [sampleEndpoint]\<rparr>)
     (fmupd [] Dir fmempty) = (None, sampleTreeEndpoint)
   \<and> WriteDataOnce samplePackage sampleCodec [''app''] (sampleApp\<lparr>HTTPEndpoints := [sampleEndpoint]\<rparr>)
     (fmupd [] Dir fmempty) = (None, sampleTreeEndpoint)"
proof -
  have "WriteData samplePackage sampleCodec [''app''] (sampleApp\<lparr>HTTPEndpoints := [sampleEndpoint]\<rparr>)
     (fmupd [] Dir fmempty) = (None, sampleTreeEndpoint)" by code_simp
  with second_endpoint_write_redundant[of samplePackage sampleCodec "[''app'']"
      "sampleApp\<lparr>HTTPEndpoints := [sampleEndpoint]\<rparr>" "fmupd [] Dir fmempty" sampleTreeEndpoint]
  show ?thesis by simp
qed

section \<open>Function sources\<close>

lemma splitSlash_no_slash: "CHR ''/'' \<notin> set s \<Longrightarrow> splitSlash s = [s]"
  by (induction s) auto

lemma splitSlash_not_Nil: "splitSlash s \<noteq> []"
  by (induction s) (auto split: list.splits)

lemma splitSlash_append_slash:
  "CHR ''/'' \<notin> set a \<Longrightarrow> splitSlash (a @ CHR ''/'' # b) = a # splitSlash b"
  by (induction a) (auto split: list.splits)

lemma splitSlash_joinSlash:
  "cs \<noteq> [] \<Longrightarrow> list_all validName cs \<Longrightarrow> splitSlash (joinSlash cs) = cs"
proof (induction cs rule: joinSlash.induct)
  case (3 c d ds)
  then show ?case by (simp add: validName_def splitSlash_append_slash)
qed (simp_all add: validName_def splitSlash_no_slash)

lemma joinSlash_inj:
  "cs \<noteq> [] \<Longrightarrow> ds \<noteq> [] \<Longrightarrow> list_all validName cs \<Longrightarrow> list_all validName ds
   \<Longrightarrow> joinSlash cs = joinSlash ds \<Longrightarrow> cs = ds"
  by (metis splitSlash_joinSlash)

lemma Rel_inj:
  assumes "strict_prefix d p" "strict_prefix d q" "list_all validName p" "list_all validName q"
    and "Rel d p = Rel d q"
  shows "p = q"
proof -
  from assms(1,2) obtain ps qs where p: "p = d @ ps" "ps \<noteq> []" and q: "q = d @ qs" "qs \<noteq> []"
    by (auto simp: strict_prefix_def prefix_def)
  with assms(3,4,5) have "ps = qs"
    by (intro joinSlash_inj) (auto simp: Rel_def)
  with p q show ?thesis by simp
qed

lemma sourceVisitor_Inr:
  "sourceVisitor t dir p acc = Inr acc' \<Longrightarrow>
   (Ext p \<noteq> extJS \<and> acc' = acc)
   \<or> (Ext p = extJS \<and> (\<exists>data. fmlookup t p = Some (File data) \<and> acc' = AList.update (Rel dir p) data acc))"
  by (auto simp: sourceVisitor_def stat_Inr split: if_splits sum.splits option.splits node.splits)

lemma sources_other_keys:
  "visitAll (sourceVisitor t dir) ps acc = Inr res
   \<Longrightarrow> (\<And>q. q \<in> set ps \<Longrightarrow> Ext q = extJS \<Longrightarrow> Rel dir q \<noteq> k)
   \<Longrightarrow> map_of res k = map_of acc k"
proof (induction ps arbitrary: acc)
  case (Cons p ps)
  from Cons.prems(1) obtain acc' where 1: "sourceVisitor t dir p acc = Inr acc'"
    and 2: "visitAll (sourceVisitor t dir) ps acc' = Inr res"
    by (auto split: sum.splits)
  from sourceVisitor_Inr[OF 1] Cons.prems(2)[of p] have "map_of acc' k = map_of acc k"
    by (auto simp: update_conv')
  with Cons.IH[OF 2] Cons.prems(2) show ?case by simp
qed simp

lemma sources_js_key:
  "visitAll (sourceVisitor t dir) ps acc = Inr res
   \<Longrightarrow> p \<in> set ps \<Longrightarrow> Ext p = extJS \<Longrightarrow> fmlookup t p = Some (File data)
   \<Longrightarrow> (\<And>q. q \<in> set ps \<Longrightarrow> Rel dir q = Rel dir p \<Longrightarrow> q = p)
   \<Longrightarrow> map_of res (Rel dir p) = Some data"
proof (induction ps arbitrary: acc)
  case (Cons x xs)
  from Cons.prems(1) obtain acc' where 1: "sourceVisitor t dir x acc = Inr acc'"
    and 2: "visitAll (sourceVisitor t dir) xs acc' = Inr res"
    by (auto split: sum.splits)
  show ?case
  proof (cases "p \<in> set xs")
    case True
    from Cons.IH[OF 2 True Cons.prems(3,4)] Cons.prems(5) show ?thesis by simp
  next
    case False
    with Cons.prems(2) have x: "x = p" by simp
    from sourceVisitor_Inr[OF 1] x Cons.prems(3,4)
    have "map_of acc' (Rel dir p) = Some data" by (auto simp: update_conv')
    moreover have "map_of res (Rel dir p) = map_of acc' (Rel dir p)"
    proof (rule sources_other_keys[OF 2])
      fix q assume "q \<in> set xs" "Ext q = extJS"
      with Cons.prems(5)[of q] False show "Rel dir q \<noteq> Rel dir p" by auto
    qed
    ultimately show ?thesis by simp
  qed
qed simp

lemma in_filesUnder:
  "p \<in> set (filesUnder t d) \<Longrightarrow> strict_prefix d p \<and> p \<in> fset (fmdom t)"
  by (auto simp: filesUnder_def)

text \<open>
  C9. In a well-formed tree, when \<open>parseFunctionsV2\<close> succeeds, every file below the
  \<open>functions\<close> directory, at whatever depth, is in the source mapping under its path
  relative to that directory, with its content, if its extension is \<open>.js\<close>, and has no
  entry there otherwise.
\<close>

theorem function_source_discovery:
  assumes "wellFormed t"
    and "parseFunctionsV2 c t rootDir = Inr (Some f)"
    and "p \<in> set (filesUnder t (rootDir @ [''functions'']))"
    and "fmlookup t p = Some (File data)"
  shows "map_of (Sources f) (Rel (rootDir @ [''functions'']) p) = (if Ext p = extJS then Some data else None)"
proof -
  let ?dir = "rootDir @ [''functions'']"
  from assms(2) have v: "visitAll (sourceVisitor t ?dir) (filesUnder t ?dir) [] = Inr (Sources f)"
    by (auto simp: parseFunctionsV2_def Let_def Join_names walk_def stat_Inr
        split: sum.splits option.splits node.splits)
  have inj: "q = p" if "q \<in> set (filesUnder t ?dir)" "Rel ?dir q = Rel ?dir p" for q
  proof (rule Rel_inj[OF _ _ _ _ that(2)])
    from in_filesUnder[OF that(1)] in_filesUnder[OF assms(3)] assms(1)
    show "strict_prefix ?dir q" "strict_prefix ?dir p" "list_all validName q" "list_all validName p"
      by (auto simp: wellFormed_def)
  qed
  show ?thesis
  proof (cases "Ext p = extJS")
    case True
    from sources_js_key[OF v assms(3) True assms(4) inj] True show ?thesis by simp
  next
    case False
    have "map_of (Sources f) (Rel ?dir p) = map_of [] (Rel ?dir p)"
    proof (rule sources_other_keys[OF v])
      fix q assume "q \<in> set (filesUnder t ?dir)" "Ext q = extJS"
      with inj[of q] False show "Rel ?dir q \<noteq> Rel ?dir p" by auto
    qed
    with False show ?thesis by simp
  qed
qed

theorem function_source_discovery_witness:
  "wellFormed sampleTreeSources
   \<and> parseFunctionsV2 sampleCodec sampleTreeSources [''app'']
       = Inr (Some \<lparr>Configs = Some [], Sources = [(''a/b/c/deep.js'', ''exports = 1'')]\<rparr>)
   \<and> filesUnder sampleTreeSources ([''app''] @ [''functions''])
       = [[''app'', ''functions'', ''a'', ''b'', ''c'', ''deep.js''],
          [''app'', ''functions'', ''a'', ''b'', ''c'', ''notes.txt''],
          [''app'', ''functions'', ''config.json'']]
   \<and> map_of [(''a/b/c/deep.js'', ''exports = 1'')]
        (Rel ([''app''] @ [''functions'']) [''app'', ''functions'', ''a'', ''b'', ''c'', ''deep.js''])
       = Some ''exports = 1''
   \<and> map_of [(''a/b/c/deep.js'', ''exports = 1'')]
        (Rel ([''app''] @ [''functions'']) [''app'', ''functions'', ''a'', ''b'', ''c'', ''notes.txt''])
       = None"
proof -
  have 1: "wellFormed sampleTreeSources" by code_simp
  have 2: "parseFunctionsV2 sampleCodec sampleTreeSources [''app'']
       = Inr (Some \<lparr>Configs = Some [], Sources = [(''a/b/c/deep.js'', ''exports = 1'')]\<rparr>)" by code_simp
  have 3: "filesUnder sampleTreeSources ([''app''] @ [''functions''])
       = [[''app'', ''functions'', ''a'', ''b'', ''c'', ''deep.js''],
          [''app'', ''functions'', ''a'', ''b'', ''c'', ''notes.txt''],
          [''app'', ''functions'', ''config.json'']]" by code_simp
  have 4: "fmlookup sampleTreeSources [''app'', ''functions'', ''a'', ''b'', ''c'', ''deep.js'']
      = Some (File ''exports = 1'')" by code_simp
  have 5: "fmlookup sampleTreeSources [''app'', ''functions'', ''a'', ''b'', ''c'', ''notes.txt'']
      = Some (File ''to do'')" by code_simp
  have 6: "Ext [''app'', ''functions'', ''a'', ''b'', ''c'', ''deep.js''] = extJS" by code_simp
  have 7: "Ext [''app'', ''functions'', ''a'', ''b'', ''c'', ''notes.txt''] \<noteq> extJS" by code_simp
  have a: "[''app'', ''functions'', ''a'', ''b'', ''c'', ''deep.js'']
      \<in> set (filesUnder sampleTreeSources ([''app''] @ [''functions'']))"
    and b: "[''app'', ''functions'', ''a'', ''b'', ''c'', ''notes.txt'']
      \<in> set (filesUnder sampleTreeSources ([''app''] @ [''functions'']))"
    unfolding 3 by simp_all
  from function_source_discovery[OF 1 2 a 4] function_source_discovery[OF 1 2 b 5] 1 2 3 6 7
  show ?thesis by simp
qed

section \<open>What a successful sequence of calls leaves\<close>












section \<open>Every writer in the sources is a sequence of calls\<close>











section \<open>Rules and their schemas\<close>












section \<open>Moving a write to another root\<close>













section \<open>Determinism and idempotence of writing\<close>



lemma sequentialW_D: "sequentialW w \<Longrightarrow> \<exists>ss. \<forall>r t. w r t = runOps (map (inst r) ss) t"
  by (simp add: sequentialW_def)

lemma containedW_D:
  "containedW w \<Longrightarrow> \<exists>ss. list_all contained ss \<and> (\<forall>r t. w r t = runOps (map (inst r) ss) t)"
  by (simp add: containedW_def)















end
